theory Spec2Isabelle
  imports Main "HOL-Library.Char_ord" "HOL-Library.List_Lexorder" "HOL-Library.Multiset"
begin

section \<open>The data store (database.py)\<close>

text \<open>
  The tables of \<^verbatim>\<open>create_tables\<close>. Every TEXT column is a string, every INTEGER column
  an unbounded integer. A table is the list of its rows in insertion order. The
  autoincrement \<^verbatim>\<open>id\<close> columns and the timestamp of the activity log are left out: the
  allocator never reads them, and the position in the list stands for the insertion order.
  A statement that fails inside the database raises an exception that the allocator does
  not catch; the model covers the runs in which every statement succeeds.
\<close>

record student =
  roll_no :: string
  name :: string
  course :: string
  semester :: string
  email :: string
  subject_code :: string

record room =
  room_no :: string
  building :: string
  rows :: int
  columns :: int
  capacity :: int

record allocation =
  alloc_roll_no :: string
  alloc_room_no :: string
  row_num :: int
  col_num :: int
  seat_number :: string
  allocation_method :: string

record store =
  students :: "student list"
  rooms :: "room list"
  seating_allocations :: "allocation list"
  activity_log :: "(string \<times> string) list"

text \<open>\<^verbatim>\<open>roll_no\<close> and \<^verbatim>\<open>room_no\<close> are declared PRIMARY KEY: no two rows of a table share one.\<close>

definition primary_keys_ok :: "store \<Rightarrow> bool" where
  "primary_keys_ok db \<longleftrightarrow>
     distinct (map roll_no (students db)) \<and> distinct (map room_no (rooms db))"

definition clear_allocations :: "store \<Rightarrow> store" where
  "clear_allocations db = db\<lparr>seating_allocations := []\<rparr>"

definition insert_allocation ::
  "string \<Rightarrow> string \<Rightarrow> int \<Rightarrow> int \<Rightarrow> string \<Rightarrow> string \<Rightarrow> store \<Rightarrow> store" where
  "insert_allocation roll rm r c seat method db =
     db\<lparr>seating_allocations := seating_allocations db @
        [\<lparr>alloc_roll_no = roll, alloc_room_no = rm, row_num = r, col_num = c,
          seat_number = seat, allocation_method = method\<rparr>]\<rparr>"

text \<open>\<^verbatim>\<open>SELECT * FROM students ORDER BY roll_no\<close>: the rows in ascending order of the key,
  strings compared byte by byte.\<close>

definition get_all_students :: "store \<Rightarrow> student list" where
  "get_all_students db = sort_key roll_no (students db)"

definition get_all_rooms :: "store \<Rightarrow> room list" where
  "get_all_rooms db = sort_key room_no (rooms db)"

definition log_activity :: "string \<Rightarrow> string \<Rightarrow> store \<Rightarrow> store" where
  "log_activity activity_type description db =
     db\<lparr>activity_log := activity_log db @ [(activity_type, description)]\<rparr>"

section \<open>Formatting integers\<close>

text \<open>Python's \<^verbatim>\<open>str\<close> of an integer, as the f-strings of the allocator use it.\<close>

definition digit_char :: "nat \<Rightarrow> char" where
  "digit_char d = ''0123456789'' ! d"

function str_nat :: "nat \<Rightarrow> string" where
  "str_nat n = (if n < 10 then [digit_char n] else str_nat (n div 10) @ [digit_char (n mod 10)])"
  by pat_completeness auto
termination
  by (relation "measure id") auto

declare str_nat.simps [simp del]

definition str_int :: "int \<Rightarrow> string" where
  "str_int i = (if i < 0 then CHR ''-'' # str_nat (nat (- i)) else str_nat (nat i))"

section \<open>The allocator (allocator.py)\<close>

subsection \<open>Seat enumeration of the roll-wise and random strategies\<close>

text \<open>The dictionaries collected in \<^verbatim>\<open>room_seats\<close>.\<close>

record seat =
  seat_room_no :: string
  row :: int
  col :: int
  seat_label :: string

text \<open>
  The three nested \<^verbatim>\<open>for\<close> loops that append to \<^verbatim>\<open>room_seats\<close>;
  \<^verbatim>\<open>range(1, n + 1)\<close> is \<open>[1..n]\<close>, empty when \<open>n < 1\<close>.
\<close>

definition seat_name :: "string \<Rightarrow> int \<Rightarrow> int \<Rightarrow> string" where
  "seat_name rm r c = rm @ ''-R'' @ str_int r @ ''C'' @ str_int c"

definition build_room_seats :: "room list \<Rightarrow> seat list" where
  "build_room_seats rms =
     concat (map (\<lambda>rm.
       concat (map (\<lambda>r.
         map (\<lambda>c. \<lparr>seat_room_no = room_no rm, row = r, col = c,
                    seat_label = seat_name (room_no rm) r c\<rparr>)
             [1..columns rm])
         [1..rows rm]))
       rms)"

text \<open>
  The loop \<^verbatim>\<open>for i, student in enumerate(...)\<close> of \<^verbatim>\<open>allocate_rollwise\<close> and
  \<^verbatim>\<open>allocate_random\<close>; the two differ in the method tag only. The state is the store and
  the counter \<^verbatim>\<open>allocated\<close>.
\<close>

fun assign_seats ::
  "string \<Rightarrow> seat list \<Rightarrow> (nat \<times> student) list \<Rightarrow> store \<times> nat \<Rightarrow> store \<times> nat" where
  "assign_seats method room_seats [] (db, allocated) = (db, allocated)"
| "assign_seats method room_seats ((i, st) # rest) (db, allocated) =
     (if i < length room_seats then
        (let st_seat = room_seats ! i in
         assign_seats method room_seats rest
           (insert_allocation (roll_no st) (seat_room_no st_seat) (row st_seat) (col st_seat)
              (seat_label st_seat) method db,
            allocated + 1))
      else assign_seats method room_seats rest (db, allocated))"

definition allocate_rollwise :: "store \<Rightarrow> store \<times> bool \<times> string" where
  "allocate_rollwise db0 =
     (let db1 = clear_allocations db0;
          studs = get_all_students db1;
          rms = get_all_rooms db1
      in if studs = [] \<or> rms = [] then (db1, False, ''No students or rooms available'')
         else
           let students_sorted = sort_key roll_no studs;
               room_seats = build_room_seats rms;
               (db2, allocated) =
                 assign_seats ''rollwise'' room_seats (enumerate 0 students_sorted) (db1, 0);
               db3 = log_activity ''allocation''
                       (''Roll-wise allocation completed: '' @ str_nat allocated @
                        '' students allocated'') db2
           in (db3, True,
               ''Successfully allocated '' @ str_nat allocated @ '' students rollwise.''))"

text \<open>
  \<^verbatim>\<open>random.shuffle\<close> rearranges a list in place. Its outcome is a parameter of the model:
  a function that returns the rearranged list. A shuffle returns a permutation of its
  argument.
\<close>

type_synonym shuffle = "student list \<Rightarrow> student list"

definition is_shuffle_of :: "student list \<Rightarrow> student list \<Rightarrow> bool" where
  "is_shuffle_of ys xs \<longleftrightarrow> mset ys = mset xs"

definition allocate_random :: "shuffle \<Rightarrow> store \<Rightarrow> store \<times> bool \<times> string" where
  "allocate_random shuf db0 =
     (let db1 = clear_allocations db0;
          studs = get_all_students db1;
          rms = get_all_rooms db1
      in if studs = [] \<or> rms = [] then (db1, False, ''No students or rooms available'')
         else
           let students_list = shuf studs;
               room_seats = build_room_seats rms;
               (db2, allocated) =
                 assign_seats ''random'' room_seats (enumerate 0 students_list) (db1, 0);
               db3 = log_activity ''allocation''
                       (''Random allocation completed: '' @ str_nat allocated @
                        '' students allocated'') db2
           in (db3, True,
               ''Successfully allocated '' @ str_nat allocated @ '' students randomly.''))"

subsection \<open>Anti-cheating (zig-zag) allocation\<close>

text \<open>
  \<^verbatim>\<open>subject_groups\<close> is a \<^verbatim>\<open>defaultdict(list)\<close>: a dictionary that keeps its keys in the
  order of their first insertion, here an association list. \<^verbatim>\<open>group_append\<close> is one
  \<^verbatim>\<open>subject_groups[k].append(s)\<close>.
\<close>

type_synonym groups = "(string \<times> student list) list"

fun group_append :: "groups \<Rightarrow> string \<Rightarrow> student \<Rightarrow> groups" where
  "group_append [] k s = [(k, [s])]"
| "group_append ((k', v) # rest) k s =
     (if k' = k then (k', v @ [s]) # rest else (k', v) # group_append rest k s)"

definition group_students :: "student list \<Rightarrow> groups" where
  "group_students studs = foldl (\<lambda>g s. group_append g (subject_code s) s) [] studs"

definition group_of :: "groups \<Rightarrow> string \<Rightarrow> student list" where
  "group_of g k = (case map_of g k of Some v \<Rightarrow> v | None \<Rightarrow> [])"

record zz_state =
  a_index :: nat
  b_index :: nat
  allocated :: nat
  db :: store

text \<open>
  The body of the innermost loop, for the seat in row \<open>r\<close> and column \<open>c\<close> (both 0-based)
  of \<open>rm\<close>. \<open>None\<close> in \<open>pick\<close> is the \<^verbatim>\<open>continue\<close>.
\<close>

definition zz_seat ::
  "string \<Rightarrow> string \<Rightarrow> student list \<Rightarrow> student list \<Rightarrow> room \<Rightarrow> int \<Rightarrow> int \<Rightarrow>
   zz_state \<Rightarrow> zz_state" where
  "zz_seat course_a course_b group_a group_b rm r c s =
     (let zigzag_order = (if r mod 2 = 0 then [course_a, course_b] else [course_b, course_a]);
          current_course = zigzag_order ! nat (c mod 2);
          pick =
            (if current_course = course_a \<and> a_index s < length group_a then
               Some (group_a ! a_index s, s\<lparr>a_index := a_index s + 1\<rparr>)
             else if current_course = course_b \<and> b_index s < length group_b then
               Some (group_b ! b_index s, s\<lparr>b_index := b_index s + 1\<rparr>)
             else if a_index s < length group_a then
               Some (group_a ! a_index s, s\<lparr>a_index := a_index s + 1\<rparr>)
             else if b_index s < length group_b then
               Some (group_b ! b_index s, s\<lparr>b_index := b_index s + 1\<rparr>)
             else None)
      in case pick of
           None \<Rightarrow> s
         | Some (st, s') \<Rightarrow>
             s'\<lparr>db := insert_allocation (roll_no st) (room_no rm) (r + 1) (c + 1)
                        (seat_name (room_no rm) (r + 1) (c + 1)) ''anti-cheating'' (db s'),
                allocated := allocated s' + 1\<rparr>)"

text \<open>The three nested loops; \<^verbatim>\<open>range(n)\<close> is \<open>[0..n - 1]\<close>.\<close>

definition zz_row ::
  "string \<Rightarrow> string \<Rightarrow> student list \<Rightarrow> student list \<Rightarrow> room \<Rightarrow> int \<Rightarrow>
   zz_state \<Rightarrow> zz_state" where
  "zz_row course_a course_b group_a group_b rm r s =
     foldl (\<lambda>s c. zz_seat course_a course_b group_a group_b rm r c s) s [0..columns rm - 1]"

definition zz_room ::
  "string \<Rightarrow> string \<Rightarrow> student list \<Rightarrow> student list \<Rightarrow> room \<Rightarrow> zz_state \<Rightarrow> zz_state" where
  "zz_room course_a course_b group_a group_b rm s =
     foldl (\<lambda>s r. zz_row course_a course_b group_a group_b rm r s) s [0..rows rm - 1]"

definition zz_rooms ::
  "string \<Rightarrow> string \<Rightarrow> student list \<Rightarrow> student list \<Rightarrow> room list \<Rightarrow>
   zz_state \<Rightarrow> zz_state" where
  "zz_rooms course_a course_b group_a group_b rms s =
     foldl (\<lambda>s rm. zz_room course_a course_b group_a group_b rm s) s rms"

definition allocate_anti_cheating ::
  "shuffle \<Rightarrow> shuffle \<Rightarrow> store \<Rightarrow> store \<times> bool \<times> string" where
  "allocate_anti_cheating shuf_a shuf_b db0 =
     (let db1 = clear_allocations db0;
          studs = get_all_students db1;
          rms = get_all_rooms db1
      in if studs = [] \<or> rms = [] then (db1, False, ''No students or rooms available'')
         else
           let subject_groups = group_students studs
           in if length subject_groups < 2 then
                (db1, False,
                 ''Need at least two different courses for anti-cheating allocation'')
              else
                let subjects = take 2 (map fst subject_groups);
                    course_a = subjects ! 0;
                    course_b = subjects ! 1;
                    group_a = shuf_a (group_of subject_groups course_a);
                    group_b = shuf_b (group_of subject_groups course_b);
                    s = zz_rooms course_a course_b group_a group_b rms
                          \<lparr>a_index = 0, b_index = 0, allocated = 0, db = db1\<rparr>;
                    db3 = log_activity ''allocation''
                            (''Anti-Cheating (Zig-Zag) allocation completed: '' @
                             str_nat (allocated s) @ '' students allocated'') (db s)
                in (db3, True,
                    ''Successfully allocated '' @ str_nat (allocated s) @
                    '' students in Anti-Cheating Zig-Zag mode.''))"

section \<open>Vocabulary of the properties\<close>

definition alloc_of :: "string \<Rightarrow> student \<Rightarrow> seat \<Rightarrow> allocation" where
  "alloc_of method st s =
     \<lparr>alloc_roll_no = roll_no st, alloc_room_no = seat_room_no s, row_num = row s,
      col_num = col s, seat_number = seat_label s, allocation_method = method\<rparr>"

definition seat_key :: "seat \<Rightarrow> string \<times> int \<times> int" where
  "seat_key s = (seat_room_no s, row s, col s)"

definition alloc_seat :: "allocation \<Rightarrow> string \<times> int \<times> int" where
  "alloc_seat a = (alloc_room_no a, row_num a, col_num a)"

definition room_size :: "room \<Rightarrow> nat" where
  "room_size rm = nat (rows rm) * nat (columns rm)"

definition seat_index :: "room list \<Rightarrow> nat \<Rightarrow> int \<Rightarrow> int \<Rightarrow> nat" where
  "seat_index rms k r c =
     sum_list (map room_size (take k rms)) + nat (r - 1) * nat (columns (rms ! k)) + nat (c - 1)"

definition example_student :: "string \<Rightarrow> string \<Rightarrow> student" where
  "example_student r sc =
     \<lparr>roll_no = r, name = [], course = [], semester = [], email = [], subject_code = sc\<rparr>"

definition example_room :: "string \<Rightarrow> int \<Rightarrow> int \<Rightarrow> room" where
  "example_room n r c = \<lparr>room_no = n, building = [], rows = r, columns = c, capacity = r * c\<rparr>"

definition example_store :: "string list \<Rightarrow> store" where
  "example_store rolls =
     \<lparr>students = map (\<lambda>r. example_student r ''CS101'') rolls,
      rooms = [example_room ''101'' 2 2, example_room ''102'' 1 2],
      seating_allocations = [], activity_log = []\<rparr>"

definition placements :: "store \<Rightarrow> (string \<times> string \<times> int \<times> int \<times> string) list" where
  "placements d =
     map (\<lambda>a. (alloc_roll_no a, alloc_room_no a, row_num a, col_num a, seat_number a))
       (seating_allocations d)"

text \<open>The seats in the order in which the loops of \<open>zz_rooms\<close> visit them, rows and columns
  0-based as the loop variables are.\<close>

definition zz_positions :: "room list \<Rightarrow> (room \<times> int \<times> int) list" where
  "zz_positions rms =
     concat (map (\<lambda>rm.
       concat (map (\<lambda>r. map (\<lambda>c. (rm, r, c)) [0..columns rm - 1]) [0..rows rm - 1])) rms)"

definition pos_seat :: "room \<times> int \<times> int \<Rightarrow> string \<times> int \<times> int" where
  "pos_seat p = (case p of (rm, r, c) \<Rightarrow> (room_no rm, r + 1, c + 1))"

text \<open>The scan of a list of seats, and its initial state.\<close>

definition zz_scan ::
  "string \<Rightarrow> string \<Rightarrow> student list \<Rightarrow> student list \<Rightarrow> (room \<times> int \<times> int) list \<Rightarrow>
   zz_state \<Rightarrow> zz_state" where
  "zz_scan course_a course_b group_a group_b ps s =
     foldl (\<lambda>s p. case p of (rm, r, c) \<Rightarrow> zz_seat course_a course_b group_a group_b rm r c s) s ps"

definition zz_start :: "store \<Rightarrow> zz_state" where
  "zz_start d = \<lparr>a_index = 0, b_index = 0, allocated = 0, db = d\<rparr>"

text \<open>The group that the zig-zag pattern designates for row \<open>r\<close> and column \<open>c\<close> (0-based).\<close>

definition designated_a :: "int \<Rightarrow> int \<Rightarrow> bool" where
  "designated_a r c \<longleftrightarrow> (r mod 2 = 0) = (c mod 2 = 0)"

definition zz_place :: "student \<Rightarrow> room \<Rightarrow> int \<Rightarrow> int \<Rightarrow> zz_state \<Rightarrow> zz_state" where
  "zz_place st rm r c s =
     s\<lparr>db := insert_allocation (roll_no st) (room_no rm) (r + 1) (c + 1)
               (seat_name (room_no rm) (r + 1) (c + 1)) ''anti-cheating'' (db s),
       allocated := allocated s + 1\<rparr>"

text \<open>What holds of the state \<open>s\<close> of a scan that started from \<open>zz_start d\<close> and has visited
  the seats \<open>ps\<close>.\<close>

definition zz_inv ::
  "student list \<Rightarrow> student list \<Rightarrow> store \<Rightarrow> (room \<times> int \<times> int) list \<Rightarrow> zz_state \<Rightarrow> bool" where
  "zz_inv A B d ps s \<longleftrightarrow>
     a_index s \<le> length A \<and> b_index s \<le> length B \<and>
     allocated s = a_index s + b_index s \<and>
     allocated s = min (length ps) (length A + length B) \<and>
     map alloc_seat (seating_allocations (db s)) = map pos_seat (take (allocated s) ps) \<and>
     mset (map alloc_roll_no (seating_allocations (db s))) =
       mset (map roll_no (take (a_index s) A)) + mset (map roll_no (take (b_index s) B)) \<and>
     students (db s) = students d \<and> rooms (db s) = rooms d \<and>
     activity_log (db s) = activity_log d"

text \<open>The values that \<open>allocate_anti_cheating\<close> binds on an accepted input: the two selected
  subject codes, the list \<^verbatim>\<open>subject_groups[k]\<close> before it is shuffled, the two shuffled
  groups, the state when the scan reaches the \<open>k\<close>-th seat, and the state after the loops.\<close>

definition course_a_of :: "store \<Rightarrow> string" where
  "course_a_of d = map fst (group_students (get_all_students d)) ! 0"

definition course_b_of :: "store \<Rightarrow> string" where
  "course_b_of d = map fst (group_students (get_all_students d)) ! 1"

definition subject_group :: "store \<Rightarrow> string \<Rightarrow> student list" where
  "subject_group d k = group_of (group_students (get_all_students d)) k"

definition group_a_of :: "shuffle \<Rightarrow> store \<Rightarrow> student list" where
  "group_a_of shuf_a d = shuf_a (subject_group d (course_a_of d))"

definition group_b_of :: "shuffle \<Rightarrow> store \<Rightarrow> student list" where
  "group_b_of shuf_b d = shuf_b (subject_group d (course_b_of d))"

definition zz_before :: "shuffle \<Rightarrow> shuffle \<Rightarrow> store \<Rightarrow> nat \<Rightarrow> zz_state" where
  "zz_before shuf_a shuf_b d k =
     zz_scan (course_a_of d) (course_b_of d) (group_a_of shuf_a d) (group_b_of shuf_b d)
       (take k (zz_positions (get_all_rooms d))) (zz_start (clear_allocations d))"

definition zz_final :: "shuffle \<Rightarrow> shuffle \<Rightarrow> store \<Rightarrow> zz_state" where
  "zz_final shuf_a shuf_b d =
     zz_scan (course_a_of d) (course_b_of d) (group_a_of shuf_a d) (group_b_of shuf_b d)
       (zz_positions (get_all_rooms d)) (zz_start (clear_allocations d))"

text \<open>Both \<^verbatim>\<open>random.shuffle\<close> calls of \<open>allocate_anti_cheating\<close> return permutations.\<close>

definition shuffled_groups :: "shuffle \<Rightarrow> shuffle \<Rightarrow> store \<Rightarrow> bool" where
  "shuffled_groups shuf_a shuf_b d \<longleftrightarrow>
     is_shuffle_of (group_a_of shuf_a d) (subject_group d (course_a_of d)) \<and>
     is_shuffle_of (group_b_of shuf_b d) (subject_group d (course_b_of d))"

text \<open>The number of students of the store with subject code \<open>k\<close>.\<close>

definition group_size :: "store \<Rightarrow> string \<Rightarrow> nat" where
  "group_size d k = length (filter (\<lambda>s. subject_code s = k) (students d))"

text \<open>A store without rooms that holds one student and one earlier record.\<close>

definition stale_store :: store where
  "stale_store =
     \<lparr>students = [example_student ''S1'' ''CS101''], rooms = [],
      seating_allocations =
        [\<lparr>alloc_roll_no = ''S9'', alloc_room_no = ''101'', row_num = 1, col_num = 1,
          seat_number = ''101-R1C1'', allocation_method = ''random''\<rparr>],
      activity_log = []\<rparr>"

text \<open>Three students and a single room with a single seat.\<close>

definition small_store :: store where
  "small_store =
     \<lparr>students = [example_student ''S1'' ''CS101'', example_student ''S2'' ''CS101'',
                  example_student ''S3'' ''CS101''],
      rooms = [example_room ''101'' 1 1], seating_allocations = [], activity_log = []\<rparr>"

text \<open>Six students with three subject codes and one room of two rows and two columns.\<close>

definition zigzag_store :: store where
  "zigzag_store =
     \<lparr>students = [example_student ''R1'' ''MATH'', example_student ''R2'' ''PHYS'',
                  example_student ''R3'' ''MATH'', example_student ''R4'' ''CHEM'',
                  example_student ''R5'' ''PHYS'', example_student ''R6'' ''MATH''],
      rooms = [example_room ''201'' 2 2], seating_allocations = [], activity_log = []\<rparr>"

text \<open>Four students with two subject codes, a room of two rows and two columns, and a
  room stored with two rows and a column count of \<open>-1\<close>.\<close>

definition negative_store :: store where
  "negative_store =
     \<lparr>students = [example_student ''S1'' ''A'', example_student ''S2'' ''B'',
                  example_student ''S3'' ''A'', example_student ''S4'' ''B''],
      rooms = [example_room ''101'' 2 2, example_room ''102'' 2 (- 1)],
      seating_allocations = [], activity_log = []\<rparr>"

text \<open>The subject code of the student with a given roll number, and the subject code that
  the zig-zag pattern designates for the seat of a record: the pattern of an even row index
  (0-based) starts with the first selected code, that of an odd one with the second, and
  the columns alternate.\<close>

definition subject_of_roll :: "store \<Rightarrow> string \<Rightarrow> string option" where
  "subject_of_roll d r = map_option subject_code (find (\<lambda>s. roll_no s = r) (students d))"

definition designated_course :: "store \<Rightarrow> allocation \<Rightarrow> string" where
  "designated_course d x =
     (if (row_num x - 1) mod 2 = 0 then [course_a_of d, course_b_of d]
      else [course_b_of d, course_a_of d]) ! nat ((col_num x - 1) mod 2)"

section \<open>Properties\<close>

subsection \<open>Assignment by position and the seat sequence\<close>

lemma assign_seats_eq:
  "assign_seats m seats (enumerate k xs) (d, n) =
     (d\<lparr>seating_allocations := seating_allocations d @ map2 (alloc_of m) xs (drop k seats)\<rparr>,
      n + min (length xs) (length seats - k))"
proof (induction xs arbitrary: k d n)
  case Nil
  then show ?case by simp
next
  case (Cons x xs)
  show ?case
  proof (cases "k < length seats")
    case True
    then have dr: "drop k seats = seats ! k # drop (Suc k) seats"
      by (simp add: Cons_nth_drop_Suc)
    from True show ?thesis
      by (simp add: Cons.IH dr insert_allocation_def alloc_of_def Let_def)
  next
    case False
    then show ?thesis by (simp add: Cons.IH)
  qed
qed

lemma distinct_concat_map_keyed:
  assumes "distinct (map k xs)"
    and "\<And>x. x \<in> set xs \<Longrightarrow> distinct (map f (g x))"
    and "\<And>x y. x \<in> set xs \<Longrightarrow> y \<in> set (g x) \<Longrightarrow> h (f y) = k x"
  shows "distinct (map f (concat (map g xs)))"
  using assms
proof (induction xs)
  case Nil
  then show ?case by simp
next
  case (Cons x xs)
  have "set (map f (g x)) \<inter> set (map f (concat (map g xs))) = {}"
  proof (rule ccontr)
    assume "\<not> ?thesis"
    then obtain y z x' where y: "y \<in> set (g x)" and x': "x' \<in> set xs" and z: "z \<in> set (g x')"
      and e: "f y = f z" by auto
    from Cons.prems(3)[of x y] y have "h (f y) = k x" by simp
    moreover from Cons.prems(3)[of x' z] x' z have "h (f z) = k x'" by simp
    ultimately have "k x = k x'" using e by simp
    with Cons.prems(1) x' show False by auto
  qed
  moreover have "distinct (map f (concat (map g xs)))"
    using Cons by simp
  moreover have "distinct (map f (g x))" using Cons.prems(2) by simp
  ultimately show ?case by simp
qed

lemma distinct_room_seats:
  assumes "distinct (map room_no rms)"
  shows "distinct (map seat_key (build_room_seats rms))"
  unfolding build_room_seats_def
proof (rule distinct_concat_map_keyed[where k = room_no and h = fst])
  show "distinct (map room_no rms)" by fact
next
  fix rm
  show "distinct (map seat_key (concat (map (\<lambda>r. map (\<lambda>c. \<lparr>seat_room_no = room_no rm, row = r, col = c,
                    seat_label = seat_name (room_no rm) r c\<rparr>) [1..columns rm]) [1..rows rm])))"
  proof (rule distinct_concat_map_keyed[where k = id and h = "\<lambda>t. fst (snd t)"])
    show "distinct (map id [1..rows rm])" by simp
  next
    fix r
    show "distinct (map seat_key (map (\<lambda>c. \<lparr>seat_room_no = room_no rm, row = r, col = c,
                    seat_label = seat_name (room_no rm) r c\<rparr>) [1..columns rm]))"
      by (simp add: distinct_map inj_on_def seat_key_def)
  next
    fix r y
    assume "y \<in> set (map (\<lambda>c. \<lparr>seat_room_no = room_no rm, row = r, col = c,
                    seat_label = seat_name (room_no rm) r c\<rparr>) [1..columns rm])"
    then show "fst (snd (seat_key y)) = id r" by (auto simp: seat_key_def)
  qed
next
  fix rm y
  assume "y \<in> set (concat (map (\<lambda>r. map (\<lambda>c. \<lparr>seat_room_no = room_no rm, row = r, col = c,
                    seat_label = seat_name (room_no rm) r c\<rparr>) [1..columns rm]) [1..rows rm]))"
  then show "fst (seat_key y) = room_no rm" by (auto simp: seat_key_def)
qed

lemma allocate_by_position:
  assumes "assign_seats m seats (enumerate 0 xs) (d, 0) = (d2, n)"
  shows "seating_allocations d2 = seating_allocations d @ map2 (alloc_of m) xs seats"
    and "n = min (length xs) (length seats)"
    and "students d2 = students d" and "rooms d2 = rooms d" and "activity_log d2 = activity_log d"
  using assms unfolding assign_seats_eq by auto

lemma allocate_rollwise_result:
  assumes "students d \<noteq> []" and "rooms d \<noteq> []"
  shows "allocate_rollwise d =
    (d\<lparr>seating_allocations :=
         map2 (alloc_of ''rollwise'') (sort_key roll_no (students d))
           (build_room_seats (sort_key room_no (rooms d))),
       activity_log := activity_log d @
         [(''allocation'', ''Roll-wise allocation completed: '' @
            str_nat (min (length (students d)) (length (build_room_seats (sort_key room_no (rooms d))))) @
            '' students allocated'')]\<rparr>,
     True,
     ''Successfully allocated '' @
       str_nat (min (length (students d)) (length (build_room_seats (sort_key room_no (rooms d))))) @
       '' students rollwise.'')"
proof -
  have ne: "sort_key roll_no (students d) \<noteq> []" "sort_key room_no (rooms d) \<noteq> []"
    using assms by (metis length_sort length_0_conv)+
  have idem: "sort_key roll_no (sort_key roll_no (students d)) = sort_key roll_no (students d)"
    by (simp add: sort_key_id_if_sorted)
  show ?thesis
    using ne
    by (simp add: allocate_rollwise_def get_all_students_def get_all_rooms_def
        clear_allocations_def Let_def idem assign_seats_eq log_activity_def)
qed

lemma allocate_random_result:
  assumes "students d \<noteq> []" and "rooms d \<noteq> []"
  shows "allocate_random shuf d =
    (d\<lparr>seating_allocations :=
         map2 (alloc_of ''random'') (shuf (sort_key roll_no (students d)))
           (build_room_seats (sort_key room_no (rooms d))),
       activity_log := activity_log d @
         [(''allocation'', ''Random allocation completed: '' @
            str_nat (min (length (shuf (sort_key roll_no (students d)))) (length (build_room_seats (sort_key room_no (rooms d))))) @
            '' students allocated'')]\<rparr>,
     True,
     ''Successfully allocated '' @
       str_nat (min (length (shuf (sort_key roll_no (students d)))) (length (build_room_seats (sort_key room_no (rooms d))))) @
       '' students randomly.'')"
proof -
  have ne: "sort_key roll_no (students d) \<noteq> []" "sort_key room_no (rooms d) \<noteq> []"
    using assms by (metis length_sort length_0_conv)+
  show ?thesis
    using ne
    by (simp add: allocate_random_def get_all_students_def get_all_rooms_def
        clear_allocations_def Let_def assign_seats_eq log_activity_def)
qed

lemma nth_concat_map:
  "k < length xs \<Longrightarrow> i < length (g (xs ! k)) \<Longrightarrow>
   concat (map g xs) ! (sum_list (map (\<lambda>x. length (g x)) (take k xs)) + i) = g (xs ! k) ! i"
proof (induction xs arbitrary: k)
  case Nil
  then show ?case by simp
next
  case (Cons x xs)
  show ?case
  proof (cases k)
    case 0
    with Cons.prems show ?thesis by (simp add: nth_append)
  next
    case (Suc k')
    with Cons.prems have "k' < length xs" "i < length (g (xs ! k'))" by simp_all
    from Cons.IH[OF this] Suc show ?thesis by (simp add: nth_append add.assoc)
  qed
qed

lemma length_concat_map_take:
  "k < length xs \<Longrightarrow> i < length (g (xs ! k)) \<Longrightarrow>
   sum_list (map (\<lambda>x. length (g x)) (take k xs)) + i < length (concat (map g xs))"
proof (induction xs arbitrary: k)
  case Nil
  then show ?case by simp
next
  case (Cons x xs)
  show ?case
  proof (cases k)
    case 0
    with Cons.prems show ?thesis by simp
  next
    case (Suc k')
    with Cons.prems have "k' < length xs" "i < length (g (xs ! k'))" by simp_all
    from Cons.IH[OF this] Suc show ?thesis by simp
  qed
qed

lemma length_row_block:
  "length (concat (map (\<lambda>r. map (f r) [lo..hi]) rs)) = length rs * nat (hi - lo + 1)"
  by (induction rs) simp_all

lemma sum_list_const: "sum_list (map (\<lambda>_. n) xs) = length xs * (n::nat)"
  by (induction xs) simp_all

lemma nth_row_block:
  assumes "1 \<le> r" "r \<le> R" "1 \<le> c" "c \<le> C"
  shows "nat (r - 1) * nat C + nat (c - 1) < length (concat (map (\<lambda>r. map (f r) [1..C]) [1..R]))"
    and "concat (map (\<lambda>r. map (f r) [1..C]) [1..R]) ! (nat (r - 1) * nat C + nat (c - 1)) = f r c"
proof -
  let ?g = "\<lambda>r. map (f r) [1..C]"
  have k: "nat (r - 1) < length [1..R]" using assms by simp
  have rk: "[1..R] ! nat (r - 1) = r" using assms by simp
  have i: "nat (c - 1) < length (?g ([1..R] ! nat (r - 1)))" using assms by simp
  have s: "sum_list (map (\<lambda>x. length (?g x)) (take (nat (r - 1)) [1..R])) = nat (r - 1) * nat C"
    using assms by (simp add: sum_list_const min_def)
  from length_concat_map_take[where g = ?g, OF k i] s
  show "nat (r - 1) * nat C + nat (c - 1) < length (concat (map ?g [1..R]))" by simp
  from nth_concat_map[where g = ?g, OF k i] s rk assms
  show "concat (map ?g [1..R]) ! (nat (r - 1) * nat C + nat (c - 1)) = f r c" by simp
qed

lemma length_build_room_seats:
  "length (build_room_seats rms) = sum_list (map room_size rms)"
  by (induction rms) (simp_all add: build_room_seats_def room_size_def length_row_block)

lemma build_room_seats_nth:
  assumes "k < length rms" "1 \<le> r" "r \<le> rows (rms ! k)" "1 \<le> c" "c \<le> columns (rms ! k)"
  shows "seat_index rms k r c < length (build_room_seats rms)"
    and "build_room_seats rms ! seat_index rms k r c =
           \<lparr>seat_room_no = room_no (rms ! k), row = r, col = c,
            seat_label = seat_name (room_no (rms ! k)) r c\<rparr>"
proof -
  let ?f = "\<lambda>rm r c. \<lparr>seat_room_no = room_no rm, row = r, col = c,
                    seat_label = seat_name (room_no rm) r c\<rparr>"
  let ?g = "\<lambda>rm. concat (map (\<lambda>r. map (?f rm r) [1..columns rm]) [1..rows rm])"
  let ?i = "nat (r - 1) * nat (columns (rms ! k)) + nat (c - 1)"
  have len: "\<And>rm. length (?g rm) = room_size rm"
    by (simp add: length_row_block room_size_def)
  have i: "?i < length (?g (rms ! k))"
    using nth_row_block(1)[where f = "?f (rms ! k)", OF assms(2-5)] by simp
  have v: "?g (rms ! k) ! ?i = ?f (rms ! k) r c"
    using nth_row_block(2)[where f = "?f (rms ! k)", OF assms(2-5)] by simp
  have b: "build_room_seats rms = concat (map ?g rms)"
    by (simp add: build_room_seats_def)
  have idx: "seat_index rms k r c = sum_list (map (\<lambda>x. length (?g x)) (take k rms)) + ?i"
    unfolding seat_index_def len by simp
  show "seat_index rms k r c < length (build_room_seats rms)"
    unfolding b idx by (rule length_concat_map_take[where g = ?g, OF assms(1) i])
  show "build_room_seats rms ! seat_index rms k r c = ?f (rms ! k) r c"
    unfolding b idx using nth_concat_map[where g = ?g, OF assms(1) i] v by simp
qed

lemma map2_alloc_roll:
  "map alloc_roll_no (map2 (alloc_of m) xs ys) = map roll_no (take (length ys) xs)"
proof (induction xs arbitrary: ys)
  case Nil
  then show ?case by simp
next
  case (Cons x xs)
  then show ?case by (cases ys) (simp_all add: alloc_of_def)
qed

lemma map2_alloc_seat:
  "map alloc_seat (map2 (alloc_of m) xs ys) = map seat_key (take (length xs) ys)"
proof (induction xs arbitrary: ys)
  case Nil
  then show ?case by simp
next
  case (Cons x xs)
  then show ?case by (cases ys) (simp_all add: alloc_of_def alloc_seat_def seat_key_def)
qed

lemma distinct_map_sort_key:
  "distinct (map f (sort_key g xs)) = distinct (map f xs)"
  by (rule mset_eq_imp_distinct_iff) simp

lemma unseated_beyond:
  assumes d: "distinct (map roll_no xs)" and i: "length ys \<le> i" "i < length xs"
  shows "roll_no (xs ! i) \<notin> alloc_roll_no ` set (map2 (alloc_of m) xs ys)"
proof
  assume "roll_no (xs ! i) \<in> alloc_roll_no ` set (map2 (alloc_of m) xs ys)"
  then have "roll_no (xs ! i) \<in> set (map roll_no (take (length ys) xs))"
    using map2_alloc_roll[of m xs ys] by (metis set_map)
  then obtain j where j: "j < length ys" "j < length xs" "roll_no (xs ! j) = roll_no (xs ! i)"
    by (auto simp: in_set_conv_nth)
  then have "map roll_no xs ! j = map roll_no xs ! i" using i by simp
  moreover have "j < length (map roll_no xs)" "i < length (map roll_no xs)" using j i by simp_all
  ultimately have "j = i" using d nth_eq_iff_index_eq by blast
  with j i show False by simp
qed

text \<open>
  Claim C1. With at least one student and one room, \<open>allocate_rollwise\<close> succeeds. The
  students are taken in ascending order of roll number, the rooms in ascending order of
  room number, and the seat sequence is row-major within each room: the seat in row \<open>r\<close>
  and column \<open>c\<close> of the \<open>k\<close>-th room stands at position \<open>seat_index rms k r c\<close>. The
  record written at position \<open>i\<close> gives the \<open>i\<close>-th student the \<open>i\<close>-th seat, for every \<open>i\<close>
  below the smaller of the two counts; a student at a position from the number of seats
  on has no record; the message reports that smaller count.
\<close>

theorem rollwise_assigns_by_position:
  fixes d :: store
  defines "studs \<equiv> sort_key roll_no (students d)"
    and "rms \<equiv> sort_key room_no (rooms d)"
  defines "seats \<equiv> build_room_seats rms"
  defines "n \<equiv> min (length studs) (length seats)"
  assumes ne: "students d \<noteq> []" "rooms d \<noteq> []" and pk: "primary_keys_ok d"
  shows "\<exists>d'. allocate_rollwise d =
           (d', True, ''Successfully allocated '' @ str_nat n @ '' students rollwise.'') \<and>
         sorted (map roll_no studs) \<and> mset studs = mset (students d) \<and>
         sorted (map room_no rms) \<and> mset rms = mset (rooms d) \<and>
         length seats = sum_list (map room_size rms) \<and>
         (\<forall>k r c. k < length rms \<and> 1 \<le> r \<and> r \<le> rows (rms ! k) \<and> 1 \<le> c \<and> c \<le> columns (rms ! k) \<longrightarrow>
            seat_index rms k r c < length seats \<and>
            seats ! seat_index rms k r c =
              \<lparr>seat_room_no = room_no (rms ! k), row = r, col = c,
               seat_label = seat_name (room_no (rms ! k)) r c\<rparr>) \<and>
         length (seating_allocations d') = n \<and>
         (\<forall>i<n. seating_allocations d' ! i = alloc_of ''rollwise'' (studs ! i) (seats ! i)) \<and>
         (\<forall>i. length seats \<le> i \<and> i < length studs \<longrightarrow>
            roll_no (studs ! i) \<notin> alloc_roll_no ` set (seating_allocations d'))"
proof -
  let ?recs = "map2 (alloc_of ''rollwise'') studs seats"
  have len: "length (students d) = length studs" by (simp add: studs_def)
  have dist: "distinct (map roll_no studs)"
    using pk by (simp add: studs_def primary_keys_ok_def distinct_map_sort_key)
  have a: "length ?recs = n" by (simp add: n_def)
  have b: "\<forall>i<n. ?recs ! i = alloc_of ''rollwise'' (studs ! i) (seats ! i)"
    by (simp add: n_def)
  have c: "\<forall>i. length seats \<le> i \<and> i < length studs \<longrightarrow>
            roll_no (studs ! i) \<notin> alloc_roll_no ` set ?recs"
    using unseated_beyond[OF dist] by blast
  have idx: "\<forall>k r c. k < length rms \<and> 1 \<le> r \<and> r \<le> rows (rms ! k) \<and> 1 \<le> c \<and> c \<le> columns (rms ! k) \<longrightarrow>
            seat_index rms k r c < length seats \<and>
            seats ! seat_index rms k r c =
              \<lparr>seat_room_no = room_no (rms ! k), row = r, col = c,
               seat_label = seat_name (room_no (rms ! k)) r c\<rparr>"
    unfolding seats_def using build_room_seats_nth by blast
  have srt: "sorted (map roll_no studs)" "mset studs = mset (students d)"
    "sorted (map room_no rms)" "mset rms = mset (rooms d)"
    by (simp_all add: studs_def rms_def)
  have ls: "length seats = sum_list (map room_size rms)"
    by (simp add: seats_def length_build_room_seats)
  have res: "allocate_rollwise d =
      (d\<lparr>seating_allocations := ?recs,
         activity_log := activity_log d @
           [(''allocation'', ''Roll-wise allocation completed: '' @ str_nat n @
              '' students allocated'')]\<rparr>,
       True, ''Successfully allocated '' @ str_nat n @ '' students rollwise.'')"
    unfolding allocate_rollwise_result[OF ne] n_def seats_def rms_def studs_def by simp
  show ?thesis
    unfolding res using a b c idx srt ls by simp
qed

text \<open>
  Claim C7, as amended. Rooms 101 (2 rows, 2 columns) and 102 (1 row, 2 columns) have six
  seats. Students S1 to S5 are placed at 101-R1C1, 101-R1C2, 101-R2C1, 101-R2C2 and 102-R1C1.
  A sixth student S6 receives the remaining seat 102-R1C2; it is a seventh student S7 who
  receives no seat.
\<close>

theorem rollwise_example_placements:
  "placements (fst (allocate_rollwise (example_store [''S1'', ''S2'', ''S3'', ''S4'', ''S5'']))) =
     [(''S1'', ''101'', 1, 1, ''101-R1C1''), (''S2'', ''101'', 1, 2, ''101-R1C2''),
      (''S3'', ''101'', 2, 1, ''101-R2C1''), (''S4'', ''101'', 2, 2, ''101-R2C2''),
      (''S5'', ''102'', 1, 1, ''102-R1C1'')] \<and>
   placements (fst (allocate_rollwise
       (example_store [''S1'', ''S2'', ''S3'', ''S4'', ''S5'', ''S6'']))) =
     [(''S1'', ''101'', 1, 1, ''101-R1C1''), (''S2'', ''101'', 1, 2, ''101-R1C2''),
      (''S3'', ''101'', 2, 1, ''101-R2C1''), (''S4'', ''101'', 2, 2, ''101-R2C2''),
      (''S5'', ''102'', 1, 1, ''102-R1C1''), (''S6'', ''102'', 1, 2, ''102-R1C2'')] \<and>
   placements (fst (allocate_rollwise
       (example_store [''S1'', ''S2'', ''S3'', ''S4'', ''S5'', ''S6'', ''S7'']))) =
     [(''S1'', ''101'', 1, 1, ''101-R1C1''), (''S2'', ''101'', 1, 2, ''101-R1C2''),
      (''S3'', ''101'', 2, 1, ''101-R2C1''), (''S4'', ''101'', 2, 2, ''101-R2C2''),
      (''S5'', ''102'', 1, 1, ''102-R1C1''), (''S6'', ''102'', 1, 2, ''102-R1C2'')]"
  by code_simp

text \<open>
  Claim C7 as stated says that S6 would receive no seat. The run with six students
  writes a record for S6.
\<close>

theorem rollwise_example_sixth_student_seated:
  "(''S6'', ''102'', 1, 2, ''102-R1C2'') \<in> set (placements (fst (allocate_rollwise
       (example_store [''S1'', ''S2'', ''S3'', ''S4'', ''S5'', ''S6'']))))"
  by code_simp

text \<open>Claim C1 at two students stored out of order and the two rooms of the example.\<close>

theorem rollwise_assigns_by_position_witness:
  "students (example_store [''S2'', ''S1'']) \<noteq> [] \<and>
   rooms (example_store [''S2'', ''S1'']) \<noteq> [] \<and>
   primary_keys_ok (example_store [''S2'', ''S1'']) \<and>
   (\<exists>d'. allocate_rollwise (example_store [''S2'', ''S1'']) =
      (d', True, ''Successfully allocated 2 students rollwise.'') \<and>
      length (seating_allocations d') = 2)"
proof -
  let ?d = "example_store [''S2'', ''S1'']"
  have h1: "students ?d \<noteq> []" by (simp add: example_store_def)
  have h2: "rooms ?d \<noteq> []" by (simp add: example_store_def)
  have h3: "primary_keys_ok ?d"
    by (simp add: primary_keys_ok_def example_store_def example_student_def example_room_def)
  have n: "min (length (sort_key roll_no (students ?d)))
             (length (build_room_seats (sort_key room_no (rooms ?d)))) = 2"
    by code_simp
  have s: "str_nat 2 = ''2''" by code_simp
  from rollwise_assigns_by_position[OF h1 h2 h3]
  show ?thesis unfolding n s using h1 h2 h3 by auto
qed

subsection \<open>The zig-zag scan and its invariant\<close>

lemma foldl_concat_map:
  "foldl f s (concat (map g xs)) = foldl (\<lambda>s x. foldl f s (g x)) s xs"
  by (induction xs arbitrary: s) simp_all

lemma foldl_map_arg: "foldl f s (map h xs) = foldl (\<lambda>s x. f s (h x)) s xs"
  by (induction xs arbitrary: s) simp_all

lemma zz_rooms_scan:
  "zz_rooms ca cb A B rms s = zz_scan ca cb A B (zz_positions rms) s"
  by (simp add: zz_rooms_def zz_room_def zz_row_def zz_scan_def zz_positions_def
      foldl_concat_map foldl_map_arg)

lemma zz_scan_snoc:
  "zz_scan ca cb A B (ps @ [(rm, r, c)]) s = zz_seat ca cb A B rm r c (zz_scan ca cb A B ps s)"
  by (simp add: zz_scan_def)

lemma zz_scan_append:
  "zz_scan ca cb A B (ps @ qs) s = zz_scan ca cb A B qs (zz_scan ca cb A B ps s)"
  by (simp add: zz_scan_def)

lemma zigzag_current:
  "(if r mod 2 = 0 then [ca, cb] else [cb, ca]) ! nat (c mod 2) =
     (if designated_a r c then ca else (cb::string))"
proof -
  have "c mod 2 = 0 \<or> c mod 2 = 1" by presburger
  then show ?thesis by (auto simp: designated_a_def)
qed

lemma zz_seat_cases:
  assumes "ca \<noteq> cb"
  shows "zz_seat ca cb A B rm r c s =
    (if a_index s < length A \<and> (b_index s < length B \<longrightarrow> designated_a r c) then
       zz_place (A ! a_index s) rm r c (s\<lparr>a_index := a_index s + 1\<rparr>)
     else if b_index s < length B then
       zz_place (B ! b_index s) rm r c (s\<lparr>b_index := b_index s + 1\<rparr>)
     else s)"
  using assms unfolding zz_seat_def zigzag_current Let_def zz_place_def
  by (cases "designated_a r c") auto

lemma zz_inv_start: "seating_allocations d = [] \<Longrightarrow> zz_inv A B d [] (zz_start d)"
  by (simp add: zz_inv_def zz_start_def)

lemma zz_inv_step:
  assumes ne: "ca \<noteq> cb" and inv: "zz_inv A B d ps t"
  shows "zz_inv A B d (ps @ [(rm, r, c)]) (zz_seat ca cb A B rm r c t)"
proof -
  from inv have a: "a_index t \<le> length A" and b: "b_index t \<le> length B"
    and al: "allocated t = a_index t + b_index t"
    and mn: "allocated t = min (length ps) (length A + length B)"
    and st: "map alloc_seat (seating_allocations (db t)) = map pos_seat (take (allocated t) ps)"
    and ro: "mset (map alloc_roll_no (seating_allocations (db t))) =
       mset (map roll_no (take (a_index t) A)) + mset (map roll_no (take (b_index t) B))"
    and fr: "students (db t) = students d" "rooms (db t) = rooms d"
       "activity_log (db t) = activity_log d"
    by (simp_all add: zz_inv_def)
  consider (A) "a_index t < length A" "b_index t < length B \<longrightarrow> designated_a r c"
    | (B) "\<not> (a_index t < length A \<and> (b_index t < length B \<longrightarrow> designated_a r c))"
          "b_index t < length B"
    | (N) "\<not> a_index t < length A" "\<not> b_index t < length B"
    by blast
  then show ?thesis
  proof cases
    case A
    then have full: "allocated t = length ps" using al mn b by (simp add: min_def split: if_splits)
    have step: "zz_seat ca cb A B rm r c t =
        zz_place (A ! a_index t) rm r c (t\<lparr>a_index := a_index t + 1\<rparr>)"
      using A by (simp add: zz_seat_cases[OF ne])
    show ?thesis
      unfolding step zz_inv_def
      using A a b al mn st ro fr full
      by (simp add: zz_place_def insert_allocation_def alloc_seat_def pos_seat_def
          take_Suc_conv_app_nth)
  next
    case B
    then have full: "allocated t = length ps" using al mn a by (simp add: min_def split: if_splits)
    have step: "zz_seat ca cb A B rm r c t =
        zz_place (B ! b_index t) rm r c (t\<lparr>b_index := b_index t + 1\<rparr>)"
      using B unfolding zz_seat_cases[OF ne] by auto
    show ?thesis
      unfolding step zz_inv_def
      using B a b al mn st ro fr full
      by (simp add: zz_place_def insert_allocation_def alloc_seat_def pos_seat_def
          take_Suc_conv_app_nth)
  next
    case N
    then have step: "zz_seat ca cb A B rm r c t = t"
      by (simp add: zz_seat_cases[OF ne])
    from N a b have "a_index t = length A" "b_index t = length B" by simp_all
    then show ?thesis
      unfolding step zz_inv_def
      using a b al mn st ro fr
      by (simp add: min_def split: if_splits)
  qed
qed

lemma zz_scan_inv:
  assumes "ca \<noteq> cb" and "seating_allocations d = []"
  shows "zz_inv A B d ps (zz_scan ca cb A B ps (zz_start d))"
proof (induction ps rule: rev_induct)
  case Nil
  then show ?case using zz_inv_start[OF assms(2)] by (simp add: zz_scan_def)
next
  case (snoc p ps)
  obtain rm r c where p: "p = (rm, r, c)" by (cases p) auto
  show ?case unfolding p zz_scan_snoc by (rule zz_inv_step[OF assms(1) snoc.IH])
qed

subsection \<open>Grouping by subject code\<close>

lemma map_of_group_append:
  "map_of (group_append g k s) =
     (map_of g)(k \<mapsto> (case map_of g k of None \<Rightarrow> [] | Some v \<Rightarrow> v) @ [s])"
  by (induction g k s rule: group_append.induct) (auto simp: fun_upd_twist)

lemma keys_group_append:
  "map fst (group_append g k s) = (if k \<in> set (map fst g) then map fst g else map fst g @ [k])"
  by (induction g k s rule: group_append.induct) auto

lemma group_students_snoc:
  "group_students (xs @ [x]) = group_append (group_students xs) (subject_code x) x"
  by (simp add: group_students_def)

lemma group_of_group_students:
  "group_of (group_students xs) k = filter (\<lambda>s. subject_code s = k) xs"
proof (induction xs rule: rev_induct)
  case Nil
  then show ?case by (simp add: group_students_def group_of_def)
next
  case (snoc x xs)
  then show ?case
    by (auto simp: group_students_snoc map_of_group_append group_of_def split: option.splits)
qed

lemma keys_group_students:
  "distinct (map fst (group_students xs)) \<and>
   set (map fst (group_students xs)) = subject_code ` set xs"
proof (induction xs rule: rev_induct)
  case Nil
  then show ?case by (simp add: group_students_def)
next
  case (snoc x xs)
  then show ?case by (auto simp: group_students_snoc keys_group_append)
qed

lemma length_group_students:
  "length (group_students xs) = card (subject_code ` set xs)"
proof -
  have "card (set (map fst (group_students xs))) = length (map fst (group_students xs))"
    using keys_group_students[of xs] distinct_card by blast
  then show ?thesis using keys_group_students[of xs] by simp
qed

lemma set_get_all_students: "set (get_all_students d) = set (students d)"
  by (simp add: get_all_students_def)

lemma subject_group_filter:
  "subject_group d k = filter (\<lambda>s. subject_code s = k) (get_all_students d)"
  by (simp add: subject_group_def group_of_group_students)

lemma selected_courses:
  assumes "2 \<le> card (subject_code ` set (students d))"
  shows "course_a_of d \<noteq> course_b_of d"
    and "course_a_of d \<in> subject_code ` set (students d)"
    and "course_b_of d \<in> subject_code ` set (students d)"
proof -
  let ?ks = "map fst (group_students (get_all_students d))"
  have len: "2 \<le> length ?ks"
    using assms by (simp add: length_group_students set_get_all_students)
  have dist: "distinct ?ks" and st: "set ?ks = subject_code ` set (students d)"
    using keys_group_students[of "get_all_students d"] by (simp_all add: set_get_all_students)
  have l0: "0 < length ?ks" and l1: "1 < length ?ks" using len by auto
  have e: "(?ks ! 0 = ?ks ! 1) = ((0::nat) = 1)"
    using dist l0 l1 by (rule nth_eq_iff_index_eq)
  have "(course_a_of d = course_b_of d) = ((0::nat) = 1)"
    unfolding course_a_of_def course_b_of_def by (rule e)
  then show "course_a_of d \<noteq> course_b_of d" by simp
  have "?ks ! 0 \<in> set ?ks" "?ks ! 1 \<in> set ?ks"
    using nth_mem[OF l0] nth_mem[OF l1] by blast+
  then show "course_a_of d \<in> subject_code ` set (students d)"
    and "course_b_of d \<in> subject_code ` set (students d)"
    unfolding course_a_of_def course_b_of_def st by simp_all
qed

lemma allocate_anti_cheating_result:
  assumes "students d \<noteq> []" and "rooms d \<noteq> []"
    and "2 \<le> card (subject_code ` set (students d))"
  shows "allocate_anti_cheating sa sb d =
    (log_activity ''allocation''
       (''Anti-Cheating (Zig-Zag) allocation completed: '' @
          str_nat (allocated (zz_final sa sb d)) @ '' students allocated'')
       (db (zz_final sa sb d)),
     True,
     ''Successfully allocated '' @ str_nat (allocated (zz_final sa sb d)) @
       '' students in Anti-Cheating Zig-Zag mode.'')"
proof -
  have ne: "get_all_students d \<noteq> []" "get_all_rooms d \<noteq> []"
    using assms(1,2) unfolding get_all_students_def get_all_rooms_def
    by (metis length_sort length_0_conv)+
  have cl: "get_all_students (clear_allocations d) = get_all_students d"
    "get_all_rooms (clear_allocations d) = get_all_rooms d"
    by (simp_all add: get_all_students_def get_all_rooms_def clear_allocations_def)
  have len: "\<not> length (group_students (get_all_students d)) < 2"
    using assms(3) by (simp add: length_group_students set_get_all_students)
  then have tk: "take 2 (map fst (group_students (get_all_students d))) ! 0 = course_a_of d"
    "take 2 (map fst (group_students (get_all_students d))) ! 1 = course_b_of d"
    by (simp_all add: course_a_of_def course_b_of_def)
  show ?thesis
    unfolding allocate_anti_cheating_def cl Let_def tk zz_rooms_scan
    using ne len
    by (simp add: zz_final_def group_a_of_def group_b_of_def subject_group_def zz_start_def)
qed

subsection \<open>The scan order is the seat sequence\<close>

lemma map_upto_shift: "map (\<lambda>i. f (i + 1)) [0..n - 1] = map f [1..n]"
proof (rule nth_equalityI)
  show "length (map (\<lambda>i. f (i + 1)) [0..n - 1]) = length (map f [1..n])" by simp
next
  fix k
  assume "k < length (map (\<lambda>i. f (i + 1)) [0..n - 1])"
  then have k: "int k \<le> n - 1" by simp
  then have "[0..n - 1] ! k = int k" "[1..n] ! k = 1 + int k" by simp_all
  then show "map (\<lambda>i. f (i + 1)) [0..n - 1] ! k = map f [1..n] ! k"
    using k by (simp add: add.commute)
qed

lemma positions_seats:
  "map pos_seat (zz_positions rms) = map seat_key (build_room_seats rms)"
proof -
  have row: "\<And>rm r. map (\<lambda>c. (room_no rm, r, c + 1)) [0..columns rm - 1] =
                    map (\<lambda>c. (room_no rm, r, c)) [1..columns rm]"
    by (rule map_upto_shift)
  have blk: "\<And>rm. map (\<lambda>r. map (\<lambda>c. (room_no rm, r + 1, c)) [1..columns rm]) [0..rows rm - 1] =
                  map (\<lambda>r. map (\<lambda>c. (room_no rm, r, c)) [1..columns rm]) [1..rows rm]"
    by (rule map_upto_shift)
  show ?thesis
    by (simp add: zz_positions_def build_room_seats_def map_concat comp_def pos_seat_def
        seat_key_def row blk)
qed

lemma length_zz_positions: "length (zz_positions rms) = sum_list (map room_size rms)"
  using arg_cong[OF positions_seats[of rms], of length]
  by (simp add: length_build_room_seats)

lemma distinct_positions:
  "distinct (map room_no rms) \<Longrightarrow> distinct (map pos_seat (zz_positions rms))"
  by (simp add: positions_seats distinct_room_seats)

lemma room_size_sum:
  assumes "\<forall>rm\<in>set rms. 0 \<le> rows rm \<and> 0 \<le> columns rm"
  shows "int (sum_list (map room_size rms)) = (\<Sum>rm\<leftarrow>rms. rows rm * columns rm)"
  using assms by (induction rms) (simp_all add: room_size_def nat_mult_distrib)

subsection \<open>The shuffled groups and the rejected inputs\<close>

lemma shuffled_set:
  assumes "is_shuffle_of G (subject_group d k)"
  shows "set G = {s \<in> set (students d). subject_code s = k}"
proof -
  from assms have "set G = set (subject_group d k)"
    unfolding is_shuffle_of_def by (rule mset_eq_setD)
  then show ?thesis by (auto simp: subject_group_filter set_get_all_students)
qed

lemma shuffled_length:
  assumes "is_shuffle_of G (subject_group d k)"
  shows "length G = group_size d k"
proof -
  from assms have "size (mset G) = size (mset (subject_group d k))"
    unfolding is_shuffle_of_def by simp
  also have "mset (subject_group d k) = filter_mset (\<lambda>s. subject_code s = k) (mset (students d))"
    by (simp add: subject_group_filter get_all_students_def)
  also have "\<dots> = mset (filter (\<lambda>s. subject_code s = k) (students d))" by simp
  finally show ?thesis unfolding group_size_def by (simp only: size_mset)
qed

lemma shuffled_distinct:
  assumes "is_shuffle_of G (subject_group d k)" and "primary_keys_ok d"
  shows "distinct (map roll_no G)"
proof -
  have "distinct (map roll_no (get_all_students d))"
    using assms(2) by (simp add: get_all_students_def primary_keys_ok_def distinct_map_sort_key)
  then have "distinct (map roll_no (subject_group d k))"
    unfolding subject_group_filter by (rule distinct_map_filter)
  moreover have "mset (map roll_no G) = mset (map roll_no (subject_group d k))"
    using assms(1) unfolding is_shuffle_of_def by (metis mset_map)
  ultimately show ?thesis using mset_eq_imp_distinct_iff by blast
qed

lemma roll_no_inj:
  assumes "primary_keys_ok d" "x \<in> set (students d)" "y \<in> set (students d)"
    "roll_no x = roll_no y"
  shows "x = y"
  using assms unfolding primary_keys_ok_def
  by (meson distinct_map inj_onD)

lemma zz_final_inv:
  assumes "2 \<le> card (subject_code ` set (students d))"
  shows "zz_inv (group_a_of sa d) (group_b_of sb d) (clear_allocations d)
           (zz_positions (get_all_rooms d)) (zz_final sa sb d)"
  unfolding zz_final_def
  by (rule zz_scan_inv[OF selected_courses(1)[OF assms]]) (simp add: clear_allocations_def)

lemma zz_before_inv:
  assumes "2 \<le> card (subject_code ` set (students d))"
  shows "zz_inv (group_a_of sa d) (group_b_of sb d) (clear_allocations d)
           (take k (zz_positions (get_all_rooms d))) (zz_before sa sb d k)"
  unfolding zz_before_def
  by (rule zz_scan_inv[OF selected_courses(1)[OF assms]]) (simp add: clear_allocations_def)

lemma zz_inv_length:
  assumes "zz_inv A B d ps s"
  shows "length (seating_allocations (db s)) = min (length ps) (length A + length B)"
proof -
  from assms have m: "allocated s = min (length ps) (length A + length B)"
    and st: "map alloc_seat (seating_allocations (db s)) = map pos_seat (take (allocated s) ps)"
    by (simp_all add: zz_inv_def)
  from arg_cong[OF st, of length] m show ?thesis by simp
qed

lemma anti_cheating_records:
  assumes "students d \<noteq> []" and "rooms d \<noteq> []"
    and "2 \<le> card (subject_code ` set (students d))"
  shows "seating_allocations (fst (allocate_anti_cheating sa sb d)) =
         seating_allocations (db (zz_final sa sb d))"
  unfolding allocate_anti_cheating_result[OF assms] by (simp add: log_activity_def)

lemma anti_cheating_rejects:
  assumes "students d \<noteq> []" and "rooms d \<noteq> []"
    and "card (subject_code ` set (students d)) < 2"
  shows "allocate_anti_cheating sa sb d =
    (clear_allocations d, False,
     ''Need at least two different courses for anti-cheating allocation'')"
proof -
  have ne: "get_all_students d \<noteq> []" "get_all_rooms d \<noteq> []"
    using assms(1,2) unfolding get_all_students_def get_all_rooms_def
    by (metis length_sort length_0_conv)+
  have cl: "get_all_students (clear_allocations d) = get_all_students d"
    "get_all_rooms (clear_allocations d) = get_all_rooms d"
    by (simp_all add: get_all_students_def get_all_rooms_def clear_allocations_def)
  have len: "length (group_students (get_all_students d)) < 2"
    using assms(3) by (simp add: length_group_students set_get_all_students)
  show ?thesis
    unfolding allocate_anti_cheating_def cl Let_def using ne len by simp
qed

lemma allocate_fail_fast:
  assumes "students d = [] \<or> rooms d = []"
  shows "allocate_rollwise d = (clear_allocations d, False, ''No students or rooms available'')"
    and "allocate_random shuf d = (clear_allocations d, False, ''No students or rooms available'')"
    and "allocate_anti_cheating sa sb d =
           (clear_allocations d, False, ''No students or rooms available'')"
proof -
  have "get_all_students (clear_allocations d) = [] \<or> get_all_rooms (clear_allocations d) = []"
    using assms by (auto simp: get_all_students_def get_all_rooms_def clear_allocations_def)
  then show "allocate_rollwise d = (clear_allocations d, False, ''No students or rooms available'')"
    and "allocate_random shuf d = (clear_allocations d, False, ''No students or rooms available'')"
    and "allocate_anti_cheating sa sb d =
           (clear_allocations d, False, ''No students or rooms available'')"
    unfolding allocate_rollwise_def allocate_random_def allocate_anti_cheating_def Let_def
    by simp_all
qed

subsection \<open>No roll number and no seat twice\<close>

lemma by_position_distinct:
  assumes "distinct (map roll_no xs)" and "distinct (map seat_key ys)"
  shows "distinct (map alloc_roll_no (map2 (alloc_of m) xs ys))"
    and "distinct (map alloc_seat (map2 (alloc_of m) xs ys))"
  unfolding map2_alloc_roll map2_alloc_seat take_map[symmetric]
  using assms by (simp_all add: distinct_take)

lemma sorted_keys_distinct:
  assumes "primary_keys_ok d"
  shows "distinct (map roll_no (sort_key roll_no (students d)))"
    and "distinct (map room_no (sort_key room_no (rooms d)))"
  using assms by (simp_all add: primary_keys_ok_def distinct_map_sort_key)

lemma rollwise_distinct:
  assumes "primary_keys_ok d"
  shows "distinct (map alloc_roll_no (seating_allocations (fst (allocate_rollwise d))))"
    and "distinct (map alloc_seat (seating_allocations (fst (allocate_rollwise d))))"
proof -
  have "distinct (map alloc_roll_no (seating_allocations (fst (allocate_rollwise d)))) \<and>
        distinct (map alloc_seat (seating_allocations (fst (allocate_rollwise d))))"
  proof (cases "students d = [] \<or> rooms d = []")
    case True
    then show ?thesis by (simp add: allocate_fail_fast(1) clear_allocations_def)
  next
    case False
    then have ne: "students d \<noteq> []" "rooms d \<noteq> []" by simp_all
    show ?thesis
      unfolding allocate_rollwise_result[OF ne]
      using by_position_distinct[OF sorted_keys_distinct(1)[OF assms]
          distinct_room_seats[OF sorted_keys_distinct(2)[OF assms]], of "''rollwise''"]
      by simp
  qed
  then show "distinct (map alloc_roll_no (seating_allocations (fst (allocate_rollwise d))))"
    and "distinct (map alloc_seat (seating_allocations (fst (allocate_rollwise d))))"
    by simp_all
qed

lemma random_distinct:
  assumes "primary_keys_ok d"
    and "is_shuffle_of (shuf (get_all_students d)) (get_all_students d)"
  shows "distinct (map alloc_roll_no (seating_allocations (fst (allocate_random shuf d))))"
    and "distinct (map alloc_seat (seating_allocations (fst (allocate_random shuf d))))"
proof -
  have "mset (map roll_no (shuf (sort_key roll_no (students d)))) =
        mset (map roll_no (sort_key roll_no (students d)))"
    using assms(2) unfolding is_shuffle_of_def get_all_students_def by (metis mset_map)
  then have ds: "distinct (map roll_no (shuf (sort_key roll_no (students d))))"
    using sorted_keys_distinct(1)[OF assms(1)] mset_eq_imp_distinct_iff by blast
  have "distinct (map alloc_roll_no (seating_allocations (fst (allocate_random shuf d)))) \<and>
        distinct (map alloc_seat (seating_allocations (fst (allocate_random shuf d))))"
  proof (cases "students d = [] \<or> rooms d = []")
    case True
    then show ?thesis by (simp add: allocate_fail_fast(2) clear_allocations_def)
  next
    case False
    then have ne: "students d \<noteq> []" "rooms d \<noteq> []" by simp_all
    show ?thesis
      unfolding allocate_random_result[OF ne]
      using by_position_distinct[OF ds
          distinct_room_seats[OF sorted_keys_distinct(2)[OF assms(1)]], of "''random''"]
      by simp
  qed
  then show "distinct (map alloc_roll_no (seating_allocations (fst (allocate_random shuf d))))"
    and "distinct (map alloc_seat (seating_allocations (fst (allocate_random shuf d))))"
    by simp_all
qed

lemma groups_disjoint:
  assumes pk: "primary_keys_ok d" and c: "2 \<le> card (subject_code ` set (students d))"
    and sh: "shuffled_groups sa sb d"
  shows "roll_no ` set (group_a_of sa d) \<inter> roll_no ` set (group_b_of sb d) = {}"
proof (rule ccontr)
  assume "\<not> ?thesis"
  then obtain x y where x: "x \<in> set (group_a_of sa d)" and y: "y \<in> set (group_b_of sb d)"
    and e: "roll_no x = roll_no y" by auto
  from sh have sa: "set (group_a_of sa d) = {s \<in> set (students d). subject_code s = course_a_of d}"
    and sb: "set (group_b_of sb d) = {s \<in> set (students d). subject_code s = course_b_of d}"
    unfolding shuffled_groups_def by (simp_all add: shuffled_set)
  from x y sa sb have "x \<in> set (students d)" "y \<in> set (students d)"
    "subject_code x = course_a_of d" "subject_code y = course_b_of d" by simp_all
  with roll_no_inj[OF pk _ _ e] selected_courses(1)[OF c] show False by auto
qed

lemma anti_cheating_roll_numbers:
  assumes ne: "students d \<noteq> []" "rooms d \<noteq> []"
    and c: "2 \<le> card (subject_code ` set (students d))"
  shows "set (map alloc_roll_no (seating_allocations (fst (allocate_anti_cheating sa sb d)))) \<subseteq>
         roll_no ` set (group_a_of sa d) \<union> roll_no ` set (group_b_of sb d)"
proof -
  let ?s = "zz_final sa sb d"
  from zz_final_inv[OF c, of sa sb]
  have "mset (map alloc_roll_no (seating_allocations (db ?s))) =
       mset (map roll_no (take (a_index ?s) (group_a_of sa d))) +
       mset (map roll_no (take (b_index ?s) (group_b_of sb d)))"
    by (simp add: zz_inv_def)
  then have "set (map alloc_roll_no (seating_allocations (db ?s))) =
       set (map roll_no (take (a_index ?s) (group_a_of sa d))) \<union>
       set (map roll_no (take (b_index ?s) (group_b_of sb d)))"
    by (metis set_mset_mset set_mset_union)
  moreover have "set (take (a_index ?s) (group_a_of sa d)) \<subseteq> set (group_a_of sa d)"
    "set (take (b_index ?s) (group_b_of sb d)) \<subseteq> set (group_b_of sb d)"
    by (rule set_take_subset)+
  ultimately show ?thesis
    unfolding anti_cheating_records[OF ne c] by auto
qed

lemma anti_cheating_distinct:
  assumes pk: "primary_keys_ok d" and sh: "shuffled_groups sa sb d"
  shows "distinct (map alloc_roll_no (seating_allocations (fst (allocate_anti_cheating sa sb d))))"
    and "distinct (map alloc_seat (seating_allocations (fst (allocate_anti_cheating sa sb d))))"
proof -
  let ?recs = "seating_allocations (fst (allocate_anti_cheating sa sb d))"
  have "distinct (map alloc_roll_no ?recs) \<and> distinct (map alloc_seat ?recs)"
  proof (cases "students d = [] \<or> rooms d = []")
    case True
    then show ?thesis by (simp add: allocate_fail_fast(3) clear_allocations_def)
  next
    case False
    then have ne: "students d \<noteq> []" "rooms d \<noteq> []" by simp_all
    show ?thesis
    proof (cases "card (subject_code ` set (students d)) < 2")
      case True
      then show ?thesis by (simp add: anti_cheating_rejects[OF ne] clear_allocations_def)
    next
      case False
      then have c: "2 \<le> card (subject_code ` set (students d))" by simp
      let ?s = "zz_final sa sb d"
      let ?A = "group_a_of sa d" and ?B = "group_b_of sb d"
      from zz_final_inv[OF c, of sa sb]
      have st: "map alloc_seat (seating_allocations (db ?s)) =
                 map pos_seat (take (allocated ?s) (zz_positions (get_all_rooms d)))"
        and ro: "mset (map alloc_roll_no (seating_allocations (db ?s))) =
                 mset (map roll_no (take (a_index ?s) ?A)) + mset (map roll_no (take (b_index ?s) ?B))"
        by (simp_all add: zz_inv_def)
      have "distinct (map pos_seat (zz_positions (get_all_rooms d)))"
        using distinct_positions sorted_keys_distinct(2)[OF pk]
        by (simp add: get_all_rooms_def)
      then have "distinct (take (allocated ?s) (map pos_seat (zz_positions (get_all_rooms d))))"
        by (rule distinct_take)
      then have seats: "distinct (map alloc_seat (seating_allocations (db ?s)))"
        unfolding st by (simp add: take_map)
      from sh have dA: "distinct (map roll_no ?A)" and dB: "distinct (map roll_no ?B)"
        unfolding shuffled_groups_def using shuffled_distinct[OF _ pk] by blast+
      have tA: "distinct (map roll_no (take (a_index ?s) ?A))"
        using distinct_take[OF dA, of "a_index ?s"] by (simp add: take_map)
      have tB: "distinct (map roll_no (take (b_index ?s) ?B))"
        using distinct_take[OF dB, of "b_index ?s"] by (simp add: take_map)
      have "set (take (a_index ?s) ?A) \<subseteq> set ?A" "set (take (b_index ?s) ?B) \<subseteq> set ?B"
        by (rule set_take_subset)+
      then have dj: "set (map roll_no (take (a_index ?s) ?A)) \<inter>
                 set (map roll_no (take (b_index ?s) ?B)) = {}"
        using groups_disjoint[OF pk c sh] by auto
      have "distinct (map roll_no (take (a_index ?s) ?A) @ map roll_no (take (b_index ?s) ?B))"
        using tA tB dj by simp
      moreover have "mset (map alloc_roll_no (seating_allocations (db ?s))) =
          mset (map roll_no (take (a_index ?s) ?A) @ map roll_no (take (b_index ?s) ?B))"
        using ro by simp
      ultimately have "distinct (map alloc_roll_no (seating_allocations (db ?s)))"
        using mset_eq_imp_distinct_iff by blast
      with seats show ?thesis unfolding anti_cheating_records[OF ne c] by simp
    qed
  qed
  then show "distinct (map alloc_roll_no ?recs)" and "distinct (map alloc_seat ?recs)"
    by simp_all
qed

subsection \<open>Determinism of the roll-wise strategy\<close>

lemma filter_key_singleton:
  "distinct (map f zs) \<Longrightarrow> k \<in> set zs \<Longrightarrow> filter (\<lambda>x. f k = f x) zs = [k]"
proof (induction zs)
  case Nil
  then show ?case by simp
next
  case (Cons z zs)
  show ?case
  proof (cases "k = z")
    case True
    with Cons.prems have "\<forall>x\<in>set zs. f k \<noteq> f x" by auto
    then have "filter (\<lambda>x. f k = f x) zs = []" by (simp add: filter_empty_conv)
    with True show ?thesis by simp
  next
    case False
    with Cons.prems have kz: "k \<in> set zs" by simp
    from Cons.prems(1) have "f z \<notin> f ` set zs" by simp
    with kz have ne: "f k \<noteq> f z" by (metis imageI)
    from Cons.prems(1) have "distinct (map f zs)" by simp
    from Cons.IH[OF this kz] ne show ?thesis by simp
  qed
qed

lemma sort_key_unique:
  assumes "set xs = set ys" and "distinct (map f xs)" and "distinct (map f ys)"
  shows "sort_key f xs = sort_key f ys"
proof (rule properties_for_sort_key)
  have "distinct xs" "distinct ys" using assms(2,3) by (simp_all add: distinct_map)
  with assms(1) have "mset xs = mset ys" by (simp add: set_eq_iff_mset_eq_distinct)
  then show "mset (sort_key f ys) = mset xs" by simp
next
  show "sorted (map f (sort_key f ys))" by simp
next
  fix k
  assume k: "k \<in> set (sort_key f ys)"
  then have "k \<in> set xs" using assms(1) by simp
  then have "filter (\<lambda>x. f k = f x) xs = [k]"
    using assms(2) by (simp add: filter_key_singleton)
  moreover have "distinct (map f (sort_key f ys))"
    using assms(3) by (simp add: distinct_map_sort_key)
  then have "filter (\<lambda>x. f k = f x) (sort_key f ys) = [k]"
    using k by (rule filter_key_singleton)
  ultimately show "filter (\<lambda>x. f k = f x) (sort_key f ys) = filter (\<lambda>x. f k = f x) xs"
    by simp
qed

lemma allocate_rollwise_inputs:
  assumes "sort_key roll_no (students d1) = sort_key roll_no (students d2)"
    and "sort_key room_no (rooms d1) = sort_key room_no (rooms d2)"
  shows "seating_allocations (fst (allocate_rollwise d1)) =
           seating_allocations (fst (allocate_rollwise d2)) \<and>
         snd (allocate_rollwise d1) = snd (allocate_rollwise d2)"
  using assms
  by (simp add: allocate_rollwise_def get_all_students_def get_all_rooms_def
      clear_allocations_def Let_def assign_seats_eq log_activity_def)

lemma allocate_rollwise_frame:
  "students (fst (allocate_rollwise d)) = students d \<and>
   rooms (fst (allocate_rollwise d)) = rooms d"
  by (simp add: allocate_rollwise_def get_all_students_def get_all_rooms_def
      clear_allocations_def Let_def assign_seats_eq log_activity_def)

text \<open>
  Claim C9. The records that \<open>allocate_rollwise\<close> writes and the result it returns depend
  on the set of student rows and the set of room rows only: two stores that hold the same
  students and rooms, whatever their earlier allocations, their activity logs and the
  physical order of their rows, give the same records and the same result. In particular a
  second run on the store that the first run left gives the records and the result of the
  first run again.
\<close>

theorem rollwise_deterministic:
  assumes "primary_keys_ok d1" and "primary_keys_ok d2"
    and "set (students d1) = set (students d2)" and "set (rooms d1) = set (rooms d2)"
  shows "seating_allocations (fst (allocate_rollwise d1)) =
           seating_allocations (fst (allocate_rollwise d2)) \<and>
         snd (allocate_rollwise d1) = snd (allocate_rollwise d2) \<and>
         seating_allocations (fst (allocate_rollwise (fst (allocate_rollwise d1)))) =
           seating_allocations (fst (allocate_rollwise d1)) \<and>
         snd (allocate_rollwise (fst (allocate_rollwise d1))) = snd (allocate_rollwise d1)"
proof -
  have s: "sort_key roll_no (students d1) = sort_key roll_no (students d2)"
    using assms(1,2) by (intro sort_key_unique assms(3)) (simp_all add: primary_keys_ok_def)
  have r: "sort_key room_no (rooms d1) = sort_key room_no (rooms d2)"
    using assms(1,2) by (intro sort_key_unique assms(4)) (simp_all add: primary_keys_ok_def)
  have again: "sort_key roll_no (students (fst (allocate_rollwise d1))) =
               sort_key roll_no (students d1)"
    "sort_key room_no (rooms (fst (allocate_rollwise d1))) = sort_key room_no (rooms d1)"
    by (simp_all add: allocate_rollwise_frame)
  show ?thesis
    using allocate_rollwise_inputs[OF s r] allocate_rollwise_inputs[OF again] by simp
qed

text \<open>Claim C9 at two stores that hold the same two students in opposite orders and
  differ in their earlier allocations and logs.\<close>

theorem rollwise_deterministic_witness:
  "primary_keys_ok (example_store [''S2'', ''S1'']) \<and>
   primary_keys_ok ((example_store [''S1'', ''S2''])\<lparr>activity_log := [(''upload'', ''x'')]\<rparr>) \<and>
   seating_allocations (fst (allocate_rollwise (example_store [''S2'', ''S1'']))) =
     seating_allocations (fst (allocate_rollwise
       ((example_store [''S1'', ''S2''])\<lparr>activity_log := [(''upload'', ''x'')]\<rparr>))) \<and>
   snd (allocate_rollwise (example_store [''S2'', ''S1''])) =
     (True, ''Successfully allocated 2 students rollwise.'')"
proof -
  let ?d1 = "example_store [''S2'', ''S1'']"
  let ?d2 = "(example_store [''S1'', ''S2''])\<lparr>activity_log := [(''upload'', ''x'')]\<rparr>"
  have h1: "primary_keys_ok ?d1" by code_simp
  have h2: "primary_keys_ok ?d2" by code_simp
  have h3: "set (students ?d1) = set (students ?d2)"
    by (auto simp: example_store_def)
  have h4: "set (rooms ?d1) = set (rooms ?d2)"
    by (simp add: example_store_def)
  have v: "snd (allocate_rollwise ?d1) = (True, ''Successfully allocated 2 students rollwise.'')"
    by code_simp
  from rollwise_deterministic[OF h1 h2 h3 h4] h1 h2 v show ?thesis by simp
qed

subsection \<open>Clearing first, failing fast\<close>

lemma clear_allocations_idem: "clear_allocations (clear_allocations d) = clear_allocations d"
  by (simp add: clear_allocations_def)

text \<open>
  Claim C3. Each of the three operations begins with \<open>clear_allocations\<close>: it behaves as it
  does on the store with the allocation table already emptied, so no earlier record
  survives or has any influence. When the student table or the room table is empty, the
  operation returns failure and the store it leaves is the original one with the allocation
  table emptied and nothing else written.
\<close>

theorem allocations_cleared_first:
  "allocate_rollwise d = allocate_rollwise (clear_allocations d) \<and>
   allocate_random shuf d = allocate_random shuf (clear_allocations d) \<and>
   allocate_anti_cheating sa sb d = allocate_anti_cheating sa sb (clear_allocations d) \<and>
   seating_allocations (clear_allocations d) = [] \<and>
   (students d = [] \<or> rooms d = [] \<longrightarrow>
      allocate_rollwise d =
        (d\<lparr>seating_allocations := []\<rparr>, False, ''No students or rooms available'') \<and>
      allocate_random shuf d =
        (d\<lparr>seating_allocations := []\<rparr>, False, ''No students or rooms available'') \<and>
      allocate_anti_cheating sa sb d =
        (d\<lparr>seating_allocations := []\<rparr>, False, ''No students or rooms available''))"
proof -
  have a: "allocate_rollwise d = allocate_rollwise (clear_allocations d)"
    unfolding allocate_rollwise_def clear_allocations_idem ..
  have b: "allocate_random shuf d = allocate_random shuf (clear_allocations d)"
    unfolding allocate_random_def clear_allocations_idem ..
  have c: "allocate_anti_cheating sa sb d = allocate_anti_cheating sa sb (clear_allocations d)"
    unfolding allocate_anti_cheating_def clear_allocations_idem ..
  have e: "seating_allocations (clear_allocations d) = []"
    by (simp add: clear_allocations_def)
  have f: "students d = [] \<or> rooms d = [] \<longrightarrow>
      allocate_rollwise d =
        (d\<lparr>seating_allocations := []\<rparr>, False, ''No students or rooms available'') \<and>
      allocate_random shuf d =
        (d\<lparr>seating_allocations := []\<rparr>, False, ''No students or rooms available'') \<and>
      allocate_anti_cheating sa sb d =
        (d\<lparr>seating_allocations := []\<rparr>, False, ''No students or rooms available'')"
  proof
    assume h: "students d = [] \<or> rooms d = []"
    show "allocate_rollwise d =
        (d\<lparr>seating_allocations := []\<rparr>, False, ''No students or rooms available'') \<and>
      allocate_random shuf d =
        (d\<lparr>seating_allocations := []\<rparr>, False, ''No students or rooms available'') \<and>
      allocate_anti_cheating sa sb d =
        (d\<lparr>seating_allocations := []\<rparr>, False, ''No students or rooms available'')"
      unfolding allocate_fail_fast[OF h] by (simp add: clear_allocations_def)
  qed
  from a b c e f show ?thesis by blast
qed

text \<open>Claim C3 at \<open>stale_store\<close>: the earlier record is gone after each operation.\<close>

theorem allocations_cleared_first_witness:
  "(students stale_store = [] \<or> rooms stale_store = []) \<and>
   seating_allocations stale_store \<noteq> [] \<and>
   allocate_rollwise stale_store =
     (stale_store\<lparr>seating_allocations := []\<rparr>, False, ''No students or rooms available'') \<and>
   allocate_random rev stale_store =
     (stale_store\<lparr>seating_allocations := []\<rparr>, False, ''No students or rooms available'') \<and>
   allocate_anti_cheating rev rev stale_store =
     (stale_store\<lparr>seating_allocations := []\<rparr>, False, ''No students or rooms available'')"
proof -
  have h: "students stale_store = [] \<or> rooms stale_store = []"
    by (simp add: stale_store_def)
  have n: "seating_allocations stale_store \<noteq> []" by (simp add: stale_store_def)
  from allocations_cleared_first[of stale_store rev rev rev] h n show ?thesis by blast
qed

text \<open>
  Claim C5. With at least one student and one room, and fewer than two distinct subject
  codes among the students (all students share one code), \<open>allocate_anti_cheating\<close> returns
  failure with the message that two courses are needed, and the store it leaves is the
  original one with the allocation table emptied: no record and no log entry is written.
\<close>

theorem anti_cheating_needs_two_groups:
  assumes "students d \<noteq> []" and "rooms d \<noteq> []"
    and "card (subject_code ` set (students d)) < 2"
  shows "allocate_anti_cheating sa sb d =
    (d\<lparr>seating_allocations := []\<rparr>, False,
     ''Need at least two different courses for anti-cheating allocation'')"
  using anti_cheating_rejects[OF assms] by (simp add: clear_allocations_def)

text \<open>Claim C5 at the five students of the example, who all carry the code CS101.\<close>

theorem anti_cheating_needs_two_groups_witness:
  "students (example_store [''S1'', ''S2'', ''S3'', ''S4'', ''S5'']) \<noteq> [] \<and>
   rooms (example_store [''S1'', ''S2'', ''S3'', ''S4'', ''S5'']) \<noteq> [] \<and>
   card (subject_code ` set (students (example_store [''S1'', ''S2'', ''S3'', ''S4'', ''S5'']))) = 1 \<and>
   allocate_anti_cheating rev rev (example_store [''S1'', ''S2'', ''S3'', ''S4'', ''S5'']) =
     (example_store [''S1'', ''S2'', ''S3'', ''S4'', ''S5''], False,
      ''Need at least two different courses for anti-cheating allocation'')"
proof -
  let ?d = "example_store [''S1'', ''S2'', ''S3'', ''S4'', ''S5'']"
  have h1: "students ?d \<noteq> []" by (simp add: example_store_def)
  have h2: "rooms ?d \<noteq> []" by (simp add: example_store_def)
  have c: "card (subject_code ` set (students ?d)) = 1"
    by (simp add: example_store_def example_student_def)
  then have h3: "card (subject_code ` set (students ?d)) < 2" by simp
  have e: "?d\<lparr>seating_allocations := []\<rparr> = ?d" by (simp add: example_store_def)
  from anti_cheating_needs_two_groups[OF h1 h2 h3, of rev rev] h1 h2 c e
  show ?thesis by simp
qed

subsection \<open>The random strategy\<close>

text \<open>
  Claim C8. With at least one student and one room, and for every permutation of the
  student list as the outcome of the shuffle, \<open>allocate_random\<close> succeeds and gives the
  \<open>j\<close>-th student of the shuffled list the \<open>j\<close>-th seat of the seat sequence, for every \<open>j\<close> below
  the smaller of the two counts; a student at a position from the number of seats on has
  no record. The seats taken are the prefix of the seat sequence that \<open>allocate_rollwise\<close>
  takes on the same store, the roll numbers are the prefix of the shuffled list, and no
  roll number and no seat occurs twice.
\<close>

theorem random_assigns_by_position:
  fixes d :: store and shuf :: shuffle
  defines "studs \<equiv> shuf (get_all_students d)"
    and "seats \<equiv> build_room_seats (get_all_rooms d)"
  defines "n \<equiv> min (length (students d)) (length seats)"
  assumes ne: "students d \<noteq> []" "rooms d \<noteq> []" and pk: "primary_keys_ok d"
    and sh: "is_shuffle_of (shuf (get_all_students d)) (get_all_students d)"
  shows "\<exists>d'. allocate_random shuf d =
           (d', True, ''Successfully allocated '' @ str_nat n @ '' students randomly.'') \<and>
         mset studs = mset (students d) \<and>
         length (seating_allocations d') = n \<and>
         (\<forall>j<n. seating_allocations d' ! j = alloc_of ''random'' (studs ! j) (seats ! j)) \<and>
         (\<forall>j. length seats \<le> j \<and> j < length studs \<longrightarrow>
            roll_no (studs ! j) \<notin> alloc_roll_no ` set (seating_allocations d')) \<and>
         map alloc_roll_no (seating_allocations d') = take n (map roll_no studs) \<and>
         map alloc_seat (seating_allocations d') = take n (map seat_key seats) \<and>
         map alloc_seat (seating_allocations d') =
           map alloc_seat (seating_allocations (fst (allocate_rollwise d))) \<and>
         distinct (map alloc_roll_no (seating_allocations d')) \<and>
         distinct (map alloc_seat (seating_allocations d'))"
proof -
  let ?recs = "map2 (alloc_of ''random'') studs seats"
  have ms: "mset studs = mset (students d)"
    using sh by (simp add: studs_def is_shuffle_of_def get_all_students_def)
  then have len: "length studs = length (students d)" by (rule mset_eq_length)
  have "mset (map roll_no studs) = mset (map roll_no (students d))"
    using ms by (metis mset_map)
  then have dist: "distinct (map roll_no studs)"
    using pk mset_eq_imp_distinct_iff unfolding primary_keys_ok_def by blast
  have a: "length ?recs = n" by (simp add: n_def len)
  have b: "\<forall>j<n. ?recs ! j = alloc_of ''random'' (studs ! j) (seats ! j)"
    by (simp add: n_def len)
  have c: "\<forall>j. length seats \<le> j \<and> j < length studs \<longrightarrow>
            roll_no (studs ! j) \<notin> alloc_roll_no ` set ?recs"
    using unseated_beyond[OF dist] by blast
  have e: "map alloc_roll_no ?recs = take n (map roll_no studs)"
    unfolding map2_alloc_roll n_def len[symmetric] by (simp add: take_map min_def)
  have f: "map alloc_seat ?recs = take n (map seat_key seats)"
    unfolding map2_alloc_seat n_def len[symmetric] by (simp add: take_map min_def)
  have g: "map alloc_seat (seating_allocations (fst (allocate_rollwise d))) =
           take n (map seat_key seats)"
  proof -
    have g0: "seating_allocations (fst (allocate_rollwise d)) =
        map2 (alloc_of ''rollwise'') (sort_key roll_no (students d))
          (build_room_seats (sort_key room_no (rooms d)))"
      by (simp add: allocate_rollwise_result[OF ne])
    show ?thesis
      unfolding g0 map2_alloc_seat n_def seats_def get_all_rooms_def
      by (simp add: take_map min_def)
  qed
  have h: "distinct (map alloc_roll_no ?recs)" "distinct (map alloc_seat ?recs)"
    using by_position_distinct[OF dist distinct_room_seats[OF sorted_keys_distinct(2)[OF pk]],
        of "''random''"]
    by (simp_all add: seats_def get_all_rooms_def)
  have res: "allocate_random shuf d =
      (d\<lparr>seating_allocations := ?recs,
         activity_log := activity_log d @
           [(''allocation'', ''Random allocation completed: '' @ str_nat n @
              '' students allocated'')]\<rparr>,
       True, ''Successfully allocated '' @ str_nat n @ '' students randomly.'')"
    unfolding allocate_random_result[OF ne] n_def seats_def studs_def len[unfolded studs_def, symmetric]
      get_all_rooms_def get_all_students_def by simp
  show ?thesis
    unfolding res using ms a b c e f g h by simp
qed

text \<open>Claim C8 at \<open>small_store\<close>, with the reversal of the list as the outcome of the
  shuffle: the student with the largest roll number takes the only seat.\<close>

theorem random_assigns_by_position_witness:
  "students small_store \<noteq> [] \<and> rooms small_store \<noteq> [] \<and> primary_keys_ok small_store \<and>
   is_shuffle_of (rev (get_all_students small_store)) (get_all_students small_store) \<and>
   (\<exists>d'. allocate_random rev small_store =
      (d', True, ''Successfully allocated 1 students randomly.'') \<and>
      map alloc_roll_no (seating_allocations d') = [''S3''])"
proof -
  have h1: "students small_store \<noteq> []" by (simp add: small_store_def)
  have h2: "rooms small_store \<noteq> []" by (simp add: small_store_def)
  have h3: "primary_keys_ok small_store" by code_simp
  have h4: "is_shuffle_of (rev (get_all_students small_store)) (get_all_students small_store)"
    by (simp add: is_shuffle_of_def)
  have n: "min (length (students small_store))
             (length (build_room_seats (get_all_rooms small_store))) = 1"
    by code_simp
  have s: "str_nat 1 = ''1''" by code_simp
  have t: "take 1 (map roll_no (rev (get_all_students small_store))) = [''S3'']"
    by code_simp
  from random_assigns_by_position[where shuf = rev and d = small_store, OF h1 h2 h3 h4]
  show ?thesis unfolding n s t using h1 h2 h3 h4 by auto
qed

subsection \<open>Counting and selecting in the zig-zag strategy\<close>

lemma keys_first_seen:
  "map fst (group_students xs) = rev (remdups (rev (map subject_code xs)))"
proof (induction xs rule: rev_induct)
  case Nil
  then show ?case by (simp add: group_students_def)
next
  case (snoc x xs)
  then show ?case by (simp add: group_students_snoc keys_group_append)
qed

lemma selected_first_seen:
  assumes "2 \<le> card (subject_code ` set (students d))"
  shows "[course_a_of d, course_b_of d] =
         take 2 (rev (remdups (rev (map subject_code (get_all_students d)))))"
proof -
  let ?ks = "map fst (group_students (get_all_students d))"
  have len: "2 \<le> length ?ks"
    using assms by (simp add: length_group_students set_get_all_students)
  have "take 2 ?ks = [?ks ! 0, ?ks ! 1]"
  proof (rule nth_equalityI)
    show "length (take 2 ?ks) = length [?ks ! 0, ?ks ! 1]" using len by simp
  next
    fix i
    assume "i < length (take 2 ?ks)"
    then have "i = 0 \<or> i = 1" by auto
    then show "take 2 ?ks ! i = [?ks ! 0, ?ks ! 1] ! i" by auto
  qed
  then show ?thesis
    unfolding course_a_of_def course_b_of_def keys_first_seen by simp
qed

lemma anti_cheating_summary:
  assumes ne: "students d \<noteq> []" "rooms d \<noteq> []"
    and c: "2 \<le> card (subject_code ` set (students d))"
    and sh: "shuffled_groups sa sb d"
  defines "n \<equiv> min (length (build_room_seats (get_all_rooms d)))
                 (group_size d (course_a_of d) + group_size d (course_b_of d))"
  shows "snd (allocate_anti_cheating sa sb d) =
           (True, ''Successfully allocated '' @ str_nat n @
                  '' students in Anti-Cheating Zig-Zag mode.'')"
    and "length (seating_allocations (fst (allocate_anti_cheating sa sb d))) = n"
    and "map alloc_seat (seating_allocations (fst (allocate_anti_cheating sa sb d))) =
           take n (map seat_key (build_room_seats (get_all_rooms d)))"
proof -
  let ?s = "zz_final sa sb d"
  let ?ps = "zz_positions (get_all_rooms d)"
  have la: "length (group_a_of sa d) = group_size d (course_a_of d)"
    and lb: "length (group_b_of sb d) = group_size d (course_b_of d)"
    using sh unfolding shuffled_groups_def by (simp_all add: shuffled_length)
  have lp: "length ?ps = length (build_room_seats (get_all_rooms d))"
    by (simp add: length_zz_positions length_build_room_seats)
  note inv = zz_final_inv[OF c, of sa sb]
  from inv have al: "allocated ?s = n"
    unfolding n_def by (simp add: zz_inv_def la lb lp)
  from inv have st: "map alloc_seat (seating_allocations (db ?s)) =
      map pos_seat (take (allocated ?s) ?ps)"
    by (simp add: zz_inv_def)
  show "snd (allocate_anti_cheating sa sb d) =
           (True, ''Successfully allocated '' @ str_nat n @
                  '' students in Anti-Cheating Zig-Zag mode.'')"
    unfolding allocate_anti_cheating_result[OF ne c] al by simp
  show "length (seating_allocations (fst (allocate_anti_cheating sa sb d))) = n"
    unfolding anti_cheating_records[OF ne c] zz_inv_length[OF inv] n_def la lb lp ..
  show "map alloc_seat (seating_allocations (fst (allocate_anti_cheating sa sb d))) =
           take n (map seat_key (build_room_seats (get_all_rooms d)))"
    unfolding anti_cheating_records[OF ne c] st al
    by (simp add: take_map positions_seats[symmetric])
qed

lemma zz_seat_progress:
  assumes "ca \<noteq> cb"
  shows "(a_index s < length A \<or> b_index s < length B \<longrightarrow>
           allocated (zz_seat ca cb A B rm r c s) = allocated s + 1 \<and>
           length (seating_allocations (db (zz_seat ca cb A B rm r c s))) =
             length (seating_allocations (db s)) + 1) \<and>
         (\<not> (a_index s < length A \<or> b_index s < length B) \<longrightarrow>
           zz_seat ca cb A B rm r c s = s)"
  unfolding zz_seat_cases[OF assms]
  by (auto simp: zz_place_def insert_allocation_def)

text \<open>
  Claim C4. Within one run of any of the three operations, no roll number and no seat
  (room number, row, column) occurs in two of the records that the run leaves in the
  allocation table. The roll numbers of the student table and the room numbers of the
  room table are pairwise distinct, and each shuffle returns a permutation of its list.
\<close>

theorem allocations_unique:
  assumes pk: "primary_keys_ok d"
    and sh: "is_shuffle_of (shuf (get_all_students d)) (get_all_students d)"
    and shg: "shuffled_groups sa sb d"
  shows "distinct (map alloc_roll_no (seating_allocations (fst (allocate_rollwise d)))) \<and>
         distinct (map alloc_seat (seating_allocations (fst (allocate_rollwise d)))) \<and>
         distinct (map alloc_roll_no (seating_allocations (fst (allocate_random shuf d)))) \<and>
         distinct (map alloc_seat (seating_allocations (fst (allocate_random shuf d)))) \<and>
         distinct (map alloc_roll_no
           (seating_allocations (fst (allocate_anti_cheating sa sb d)))) \<and>
         distinct (map alloc_seat
           (seating_allocations (fst (allocate_anti_cheating sa sb d))))"
  using rollwise_distinct[OF pk] random_distinct[where shuf = shuf, OF pk sh]
    anti_cheating_distinct[OF pk shg]
  by blast

lemma shuffled_groups_rev_id: "shuffled_groups rev (\<lambda>xs. xs) d"
  by (simp add: shuffled_groups_def is_shuffle_of_def group_a_of_def group_b_of_def)

text \<open>Claim C4 at \<open>zigzag_store\<close>: the three runs seat four students each, on four
  different seats.\<close>

theorem allocations_unique_witness:
  "primary_keys_ok zigzag_store \<and>
   is_shuffle_of (rev (get_all_students zigzag_store)) (get_all_students zigzag_store) \<and>
   shuffled_groups rev (\<lambda>xs. xs) zigzag_store \<and>
   map alloc_roll_no (seating_allocations (fst (allocate_anti_cheating rev (\<lambda>xs. xs) zigzag_store)))
     = [''R6'', ''R2'', ''R5'', ''R3''] \<and>
   distinct (map alloc_roll_no
     (seating_allocations (fst (allocate_anti_cheating rev (\<lambda>xs. xs) zigzag_store)))) \<and>
   distinct (map alloc_seat
     (seating_allocations (fst (allocate_anti_cheating rev (\<lambda>xs. xs) zigzag_store))))"
proof -
  have h1: "primary_keys_ok zigzag_store" by code_simp
  have h2: "is_shuffle_of (rev (get_all_students zigzag_store)) (get_all_students zigzag_store)"
    by (simp add: is_shuffle_of_def)
  have h3: "shuffled_groups rev (\<lambda>xs. xs) zigzag_store" by (rule shuffled_groups_rev_id)
  have v: "map alloc_roll_no
      (seating_allocations (fst (allocate_anti_cheating rev (\<lambda>xs. xs) zigzag_store)))
     = [''R6'', ''R2'', ''R5'', ''R3'']"
    by code_simp
  from allocations_unique[where shuf = rev and sa = rev and sb = "\<lambda>xs. xs", OF h1 h2 h3]
    h1 h2 h3 v
  show ?thesis by blast
qed

lemma sum_list_sort_key:
  fixes g :: "'a \<Rightarrow> 'b::comm_monoid_add"
  shows "(\<Sum>x\<leftarrow>sort_key f xs. g x) = (\<Sum>x\<leftarrow>xs. g x)"
proof -
  have "mset (map g (sort_key f xs)) = mset (map g xs)" by simp
  then show ?thesis by (metis sum_mset_sum_list)
qed

text \<open>
  Claim C10 as stated takes the sum of rows times columns over the rooms as the number of
  seats. On \<open>negative_store\<close>, an input that \<open>allocate_anti_cheating\<close> accepts, the loops
  over the second room are empty, so the run seats all four students, while the smaller
  of the joint group size 4 and the sum 4 + (-2) is 2.
\<close>

theorem anti_cheating_count_negative_columns:
  "students negative_store \<noteq> [] \<and> rooms negative_store \<noteq> [] \<and>
   2 \<le> card (subject_code ` set (students negative_store)) \<and>
   allocate_anti_cheating (\<lambda>xs. xs) (\<lambda>xs. xs) negative_store =
     (fst (allocate_anti_cheating (\<lambda>xs. xs) (\<lambda>xs. xs) negative_store), True,
      ''Successfully allocated 4 students in Anti-Cheating Zig-Zag mode.'') \<and>
   length (seating_allocations
     (fst (allocate_anti_cheating (\<lambda>xs. xs) (\<lambda>xs. xs) negative_store))) = 4 \<and>
   min (int (group_size negative_store (course_a_of negative_store) +
             group_size negative_store (course_b_of negative_store)))
       (\<Sum>rm\<leftarrow>rooms negative_store. rows rm * columns rm) = 2"
proof -
  have h1: "students negative_store \<noteq> []" by (simp add: negative_store_def)
  have h2: "rooms negative_store \<noteq> []" by (simp add: negative_store_def)
  have h3: "2 \<le> card (subject_code ` set (students negative_store))" by code_simp
  have r: "snd (allocate_anti_cheating (\<lambda>xs. xs) (\<lambda>xs. xs) negative_store) =
      (True, ''Successfully allocated 4 students in Anti-Cheating Zig-Zag mode.'')"
    by code_simp
  have r': "allocate_anti_cheating (\<lambda>xs. xs) (\<lambda>xs. xs) negative_store =
     (fst (allocate_anti_cheating (\<lambda>xs. xs) (\<lambda>xs. xs) negative_store), True,
      ''Successfully allocated 4 students in Anti-Cheating Zig-Zag mode.'')"
    using r by (metis prod.collapse)
  have l: "length (seating_allocations
     (fst (allocate_anti_cheating (\<lambda>xs. xs) (\<lambda>xs. xs) negative_store))) = 4"
    by code_simp
  have g: "group_size negative_store (course_a_of negative_store) +
           group_size negative_store (course_b_of negative_store) = 4"
    by code_simp
  have c: "(\<Sum>rm\<leftarrow>rooms negative_store. rows rm * columns rm) = 2"
    by (simp add: negative_store_def example_room_def)
  have m: "min (int (group_size negative_store (course_a_of negative_store) +
             group_size negative_store (course_b_of negative_store)))
       (\<Sum>rm\<leftarrow>rooms negative_store. rows rm * columns rm) = 2"
    unfolding g c by simp
  show ?thesis by (intro conjI h1 h2 h3 r' l m)
qed

text \<open>
  Claim C10, as amended. On an input that \<open>allocate_anti_cheating\<close> accepts (at least one
  student, one room and two subject codes), the number of students seated is the smaller
  of the joint size of the two selected groups and the number of seats, which is the sum
  over the rooms of rows times columns with a negative count taken as zero; this is the
  sum of rows times columns when no room has a negative count. The seats taken are the
  first that many seats of the seat sequence. At every seat the loop body writes one
  record as long as one of the two groups has an unplaced member, and leaves the state as
  it is only when both are exhausted.
\<close>

theorem anti_cheating_count:
  fixes d :: store and sa sb :: shuffle
  defines "size_ab \<equiv> group_size d (course_a_of d) + group_size d (course_b_of d)"
  defines "n \<equiv> min size_ab (length (build_room_seats (get_all_rooms d)))"
  assumes ne: "students d \<noteq> []" "rooms d \<noteq> []"
    and c: "2 \<le> card (subject_code ` set (students d))"
    and sh: "shuffled_groups sa sb d"
  shows "\<exists>d'. allocate_anti_cheating sa sb d =
           (d', True, ''Successfully allocated '' @ str_nat n @
                      '' students in Anti-Cheating Zig-Zag mode.'') \<and>
         length (seating_allocations d') = n \<and>
         n = min size_ab (\<Sum>rm\<leftarrow>rooms d. nat (rows rm) * nat (columns rm)) \<and>
         length (build_room_seats (get_all_rooms d)) =
           (\<Sum>rm\<leftarrow>rooms d. nat (rows rm) * nat (columns rm)) \<and>
         ((\<forall>rm\<in>set (rooms d). 0 \<le> rows rm \<and> 0 \<le> columns rm) \<longrightarrow>
            int n = min (int size_ab) (\<Sum>rm\<leftarrow>rooms d. rows rm * columns rm)) \<and>
         map alloc_seat (seating_allocations d') =
           take n (map seat_key (build_room_seats (get_all_rooms d))) \<and>
         (\<forall>rm r c s.
            (a_index s < length (group_a_of sa d) \<or> b_index s < length (group_b_of sb d) \<longrightarrow>
               allocated (zz_seat (course_a_of d) (course_b_of d) (group_a_of sa d)
                  (group_b_of sb d) rm r c s) = allocated s + 1 \<and>
               length (seating_allocations (db (zz_seat (course_a_of d) (course_b_of d)
                  (group_a_of sa d) (group_b_of sb d) rm r c s))) =
                 length (seating_allocations (db s)) + 1) \<and>
            (\<not> (a_index s < length (group_a_of sa d) \<or> b_index s < length (group_b_of sb d)) \<longrightarrow>
               zz_seat (course_a_of d) (course_b_of d) (group_a_of sa d) (group_b_of sb d)
                 rm r c s = s))"
proof -
  let ?d' = "fst (allocate_anti_cheating sa sb d)"
  have n': "n = min (length (build_room_seats (get_all_rooms d)))
                 (group_size d (course_a_of d) + group_size d (course_b_of d))"
    by (simp add: n_def size_ab_def min.commute)
  note sm = anti_cheating_summary[OF ne c sh, folded n']
  have seats: "length (build_room_seats (get_all_rooms d)) =
      (\<Sum>rm\<leftarrow>rooms d. nat (rows rm) * nat (columns rm))"
    unfolding length_build_room_seats get_all_rooms_def sum_list_sort_key room_size_def ..
  have nsum: "n = min size_ab (\<Sum>rm\<leftarrow>rooms d. nat (rows rm) * nat (columns rm))"
    unfolding n_def seats ..
  have cnt: "(\<forall>rm\<in>set (rooms d). 0 \<le> rows rm \<and> 0 \<le> columns rm) \<longrightarrow>
            int n = min (int size_ab) (\<Sum>rm\<leftarrow>rooms d. rows rm * columns rm)"
  proof
    assume dims: "\<forall>rm\<in>set (rooms d). 0 \<le> rows rm \<and> 0 \<le> columns rm"
    then have "\<forall>rm\<in>set (get_all_rooms d). 0 \<le> rows rm \<and> 0 \<le> columns rm"
      by (simp add: get_all_rooms_def)
    then have "int (length (build_room_seats (get_all_rooms d))) =
        (\<Sum>rm\<leftarrow>get_all_rooms d. rows rm * columns rm)"
      unfolding length_build_room_seats by (rule room_size_sum)
    also have "\<dots> = (\<Sum>rm\<leftarrow>rooms d. rows rm * columns rm)"
      unfolding get_all_rooms_def by (rule sum_list_sort_key)
    finally have cap: "int (length (build_room_seats (get_all_rooms d))) =
        (\<Sum>rm\<leftarrow>rooms d. rows rm * columns rm)" .
    show "int n = min (int size_ab) (\<Sum>rm\<leftarrow>rooms d. rows rm * columns rm)"
      unfolding cap[symmetric] n_def by simp
  qed
  have res: "allocate_anti_cheating sa sb d =
      (?d', True,
       ''Successfully allocated '' @ str_nat n @ '' students in Anti-Cheating Zig-Zag mode.'')"
    using sm(1) by (metis prod.collapse)
  have step: "\<forall>rm r c s.
            (a_index s < length (group_a_of sa d) \<or> b_index s < length (group_b_of sb d) \<longrightarrow>
               allocated (zz_seat (course_a_of d) (course_b_of d) (group_a_of sa d)
                  (group_b_of sb d) rm r c s) = allocated s + 1 \<and>
               length (seating_allocations (db (zz_seat (course_a_of d) (course_b_of d)
                  (group_a_of sa d) (group_b_of sb d) rm r c s))) =
                 length (seating_allocations (db s)) + 1) \<and>
            (\<not> (a_index s < length (group_a_of sa d) \<or> b_index s < length (group_b_of sb d)) \<longrightarrow>
               zz_seat (course_a_of d) (course_b_of d) (group_a_of sa d) (group_b_of sb d)
                 rm r c s = s)"
    using zz_seat_progress[OF selected_courses(1)[OF c]] by blast
  have "allocate_anti_cheating sa sb d =
           (?d', True, ''Successfully allocated '' @ str_nat n @
                      '' students in Anti-Cheating Zig-Zag mode.'') \<and>
         length (seating_allocations ?d') = n \<and>
         n = min size_ab (\<Sum>rm\<leftarrow>rooms d. nat (rows rm) * nat (columns rm)) \<and>
         length (build_room_seats (get_all_rooms d)) =
           (\<Sum>rm\<leftarrow>rooms d. nat (rows rm) * nat (columns rm)) \<and>
         ((\<forall>rm\<in>set (rooms d). 0 \<le> rows rm \<and> 0 \<le> columns rm) \<longrightarrow>
            int n = min (int size_ab) (\<Sum>rm\<leftarrow>rooms d. rows rm * columns rm)) \<and>
         map alloc_seat (seating_allocations ?d') =
           take n (map seat_key (build_room_seats (get_all_rooms d))) \<and>
         (\<forall>rm r c s.
            (a_index s < length (group_a_of sa d) \<or> b_index s < length (group_b_of sb d) \<longrightarrow>
               allocated (zz_seat (course_a_of d) (course_b_of d) (group_a_of sa d)
                  (group_b_of sb d) rm r c s) = allocated s + 1 \<and>
               length (seating_allocations (db (zz_seat (course_a_of d) (course_b_of d)
                  (group_a_of sa d) (group_b_of sb d) rm r c s))) =
                 length (seating_allocations (db s)) + 1) \<and>
            (\<not> (a_index s < length (group_a_of sa d) \<or> b_index s < length (group_b_of sb d)) \<longrightarrow>
               zz_seat (course_a_of d) (course_b_of d) (group_a_of sa d) (group_b_of sb d)
                 rm r c s = s))"
    by (intro conjI res sm(2) nsum seats cnt sm(3) step)
  then show ?thesis by (intro exI)
qed

text \<open>Claim C10 at \<open>zigzag_store\<close>: five students in the two selected groups, four seats,
  four students seated.\<close>

theorem anti_cheating_count_witness:
  "students zigzag_store \<noteq> [] \<and> rooms zigzag_store \<noteq> [] \<and>
   2 \<le> card (subject_code ` set (students zigzag_store)) \<and>
   shuffled_groups rev (\<lambda>xs. xs) zigzag_store \<and>
   list_all (\<lambda>rm. 0 \<le> rows rm \<and> 0 \<le> columns rm) (rooms zigzag_store) \<and>
   group_size zigzag_store (course_a_of zigzag_store) +
     group_size zigzag_store (course_b_of zigzag_store) = 5 \<and>
   (\<Sum>rm\<leftarrow>rooms zigzag_store. rows rm * columns rm) = 4 \<and>
   (\<exists>d'. allocate_anti_cheating rev (\<lambda>xs. xs) zigzag_store =
      (d', True, ''Successfully allocated 4 students in Anti-Cheating Zig-Zag mode.'') \<and>
      length (seating_allocations d') = 4)"
proof -
  have h1: "students zigzag_store \<noteq> []" by (simp add: zigzag_store_def)
  have h2: "rooms zigzag_store \<noteq> []" by (simp add: zigzag_store_def)
  have h3: "2 \<le> card (subject_code ` set (students zigzag_store))" by code_simp
  have h4: "shuffled_groups rev (\<lambda>xs. xs) zigzag_store" by (rule shuffled_groups_rev_id)
  have h5: "list_all (\<lambda>rm. 0 \<le> rows rm \<and> 0 \<le> columns rm) (rooms zigzag_store)"
    by (simp add: zigzag_store_def example_room_def)
  then have h5': "\<forall>rm\<in>set (rooms zigzag_store). 0 \<le> rows rm \<and> 0 \<le> columns rm"
    by (simp add: list_all_iff)
  have g: "group_size zigzag_store (course_a_of zigzag_store) +
           group_size zigzag_store (course_b_of zigzag_store) = 5"
    by code_simp
  from anti_cheating_count[where sa = rev and sb = "\<lambda>xs. xs", OF h1 h2 h3 h4]
  obtain d' where res: "allocate_anti_cheating rev (\<lambda>xs. xs) zigzag_store =
      (d', True, ''Successfully allocated '' @
         str_nat (min (group_size zigzag_store (course_a_of zigzag_store) +
                       group_size zigzag_store (course_b_of zigzag_store))
                  (length (build_room_seats (get_all_rooms zigzag_store)))) @
         '' students in Anti-Cheating Zig-Zag mode.'')"
    and len: "length (seating_allocations d') =
         min (group_size zigzag_store (course_a_of zigzag_store) +
              group_size zigzag_store (course_b_of zigzag_store))
           (length (build_room_seats (get_all_rooms zigzag_store)))"
    and cnt: "(\<forall>rm\<in>set (rooms zigzag_store). 0 \<le> rows rm \<and> 0 \<le> columns rm) \<longrightarrow>
         int (min (group_size zigzag_store (course_a_of zigzag_store) +
                   group_size zigzag_store (course_b_of zigzag_store))
                (length (build_room_seats (get_all_rooms zigzag_store)))) =
         min (int (group_size zigzag_store (course_a_of zigzag_store) +
                   group_size zigzag_store (course_b_of zigzag_store)))
             (\<Sum>rm\<leftarrow>rooms zigzag_store. rows rm * columns rm)"
    by (elim exE conjE)
  have n: "min (group_size zigzag_store (course_a_of zigzag_store) +
                group_size zigzag_store (course_b_of zigzag_store))
             (length (build_room_seats (get_all_rooms zigzag_store))) = 4"
    by code_simp
  have s: "str_nat 4 = ''4''" by code_simp
  have cap: "(\<Sum>rm\<leftarrow>rooms zigzag_store. rows rm * columns rm) = 4"
    by (simp add: zigzag_store_def example_room_def)
  have "int (4::nat) = min (int 5) (\<Sum>rm\<leftarrow>rooms zigzag_store. rows rm * columns rm)"
    using cnt h5' unfolding n unfolding g by blast
  have "\<exists>d'. allocate_anti_cheating rev (\<lambda>xs. xs) zigzag_store =
      (d', True, ''Successfully allocated 4 students in Anti-Cheating Zig-Zag mode.'') \<and>
      length (seating_allocations d') = 4"
    using res len unfolding n s by simp
  with h1 h2 h3 h4 h5 g cap show ?thesis by (intro conjI)
qed

lemma third_group_exists:
  assumes "3 \<le> card (subject_code ` set (students d))"
  shows "\<exists>s\<in>set (students d). subject_code s \<noteq> ca \<and> subject_code s \<noteq> cb"
proof (rule ccontr)
  assume "\<not> ?thesis"
  then have "subject_code ` set (students d) \<subseteq> {ca, cb}" by auto
  then have "card (subject_code ` set (students d)) \<le> card {ca, cb}"
    by (intro card_mono) simp_all
  also have "\<dots> \<le> 2" by (simp add: card_insert_if)
  finally show False using assms by simp
qed

text \<open>
  Claim C6. With three or more distinct subject codes, \<open>allocate_anti_cheating\<close> succeeds.
  The two selected codes are the first two distinct subject codes met in the student list
  in ascending order of roll number. Every record written belongs to a student of one of
  the two selected groups; there are students of further groups, and none of them has a
  record; the number of records is at most the joint size of the two selected groups.
\<close>

theorem anti_cheating_first_two_groups:
  assumes ne: "students d \<noteq> []" "rooms d \<noteq> []"
    and c3: "3 \<le> card (subject_code ` set (students d))"
    and pk: "primary_keys_ok d"
    and sh: "shuffled_groups sa sb d"
  shows "\<exists>d' n. allocate_anti_cheating sa sb d =
           (d', True, ''Successfully allocated '' @ str_nat n @
                      '' students in Anti-Cheating Zig-Zag mode.'') \<and>
         length (seating_allocations d') = n \<and>
         n \<le> group_size d (course_a_of d) + group_size d (course_b_of d) \<and>
         [course_a_of d, course_b_of d] =
           take 2 (rev (remdups (rev (map subject_code (get_all_students d))))) \<and>
         (\<forall>x\<in>set (seating_allocations d'). \<exists>s\<in>set (students d).
            roll_no s = alloc_roll_no x \<and>
            (subject_code s = course_a_of d \<or> subject_code s = course_b_of d)) \<and>
         (\<exists>s\<in>set (students d).
            subject_code s \<noteq> course_a_of d \<and> subject_code s \<noteq> course_b_of d) \<and>
         (\<forall>s\<in>set (students d).
            subject_code s \<noteq> course_a_of d \<and> subject_code s \<noteq> course_b_of d \<longrightarrow>
            roll_no s \<notin> alloc_roll_no ` set (seating_allocations d'))"
proof -
  let ?d' = "fst (allocate_anti_cheating sa sb d)"
  let ?n = "min (length (build_room_seats (get_all_rooms d)))
                (group_size d (course_a_of d) + group_size d (course_b_of d))"
  from c3 have c: "2 \<le> card (subject_code ` set (students d))" by simp
  note sm = anti_cheating_summary[OF ne c sh]
  have res: "allocate_anti_cheating sa sb d =
      (?d', True,
       ''Successfully allocated '' @ str_nat ?n @ '' students in Anti-Cheating Zig-Zag mode.'')"
    using sm(1) by (metis prod.collapse)
  have le: "?n \<le> group_size d (course_a_of d) + group_size d (course_b_of d)" by simp
  from sh have sA: "set (group_a_of sa d) = {s \<in> set (students d). subject_code s = course_a_of d}"
    and sB: "set (group_b_of sb d) = {s \<in> set (students d). subject_code s = course_b_of d}"
    unfolding shuffled_groups_def by (simp_all add: shuffled_set)
  have rolls: "alloc_roll_no ` set (seating_allocations ?d') \<subseteq>
      roll_no ` set (group_a_of sa d) \<union> roll_no ` set (group_b_of sb d)"
    using anti_cheating_roll_numbers[OF ne c, of sa sb] by simp
  have only: "\<forall>x\<in>set (seating_allocations ?d'). \<exists>s\<in>set (students d).
            roll_no s = alloc_roll_no x \<and>
            (subject_code s = course_a_of d \<or> subject_code s = course_b_of d)"
  proof
    fix x
    assume "x \<in> set (seating_allocations ?d')"
    then have "alloc_roll_no x \<in> roll_no ` set (group_a_of sa d) \<union> roll_no ` set (group_b_of sb d)"
      using rolls by blast
    then have "\<exists>s. s \<in> set (group_a_of sa d) \<union> set (group_b_of sb d) \<and>
        roll_no s = alloc_roll_no x" by (auto simp: image_iff)
    then obtain s where "s \<in> set (group_a_of sa d) \<union> set (group_b_of sb d)"
      and "roll_no s = alloc_roll_no x" by blast
    then show "\<exists>s\<in>set (students d). roll_no s = alloc_roll_no x \<and>
            (subject_code s = course_a_of d \<or> subject_code s = course_b_of d)"
      unfolding sA sB by blast
  qed
  have none: "\<forall>s\<in>set (students d).
            subject_code s \<noteq> course_a_of d \<and> subject_code s \<noteq> course_b_of d \<longrightarrow>
            roll_no s \<notin> alloc_roll_no ` set (seating_allocations ?d')"
  proof (intro ballI impI notI)
    fix s
    assume s: "s \<in> set (students d)"
      and o: "subject_code s \<noteq> course_a_of d \<and> subject_code s \<noteq> course_b_of d"
      and m: "roll_no s \<in> alloc_roll_no ` set (seating_allocations ?d')"
    from m obtain x where "x \<in> set (seating_allocations ?d')" "alloc_roll_no x = roll_no s"
      by auto
    with only obtain t where t: "t \<in> set (students d)" "roll_no t = roll_no s"
      "subject_code t = course_a_of d \<or> subject_code t = course_b_of d" by metis
    from roll_no_inj[OF pk t(1) s t(2)] t(3) o show False by simp
  qed
  have "allocate_anti_cheating sa sb d =
           (?d', True, ''Successfully allocated '' @ str_nat ?n @
                      '' students in Anti-Cheating Zig-Zag mode.'') \<and>
         length (seating_allocations ?d') = ?n \<and>
         ?n \<le> group_size d (course_a_of d) + group_size d (course_b_of d) \<and>
         [course_a_of d, course_b_of d] =
           take 2 (rev (remdups (rev (map subject_code (get_all_students d))))) \<and>
         (\<forall>x\<in>set (seating_allocations ?d'). \<exists>s\<in>set (students d).
            roll_no s = alloc_roll_no x \<and>
            (subject_code s = course_a_of d \<or> subject_code s = course_b_of d)) \<and>
         (\<exists>s\<in>set (students d).
            subject_code s \<noteq> course_a_of d \<and> subject_code s \<noteq> course_b_of d) \<and>
         (\<forall>s\<in>set (students d).
            subject_code s \<noteq> course_a_of d \<and> subject_code s \<noteq> course_b_of d \<longrightarrow>
            roll_no s \<notin> alloc_roll_no ` set (seating_allocations ?d'))"
    by (intro conjI res sm(2) le selected_first_seen[OF c] only third_group_exists[OF c3] none)
  then show ?thesis by (intro exI)
qed

text \<open>Claim C6 at \<open>zigzag_store\<close>: the codes MATH and PHYS are selected, and the student
  R4 with the code CHEM has no record.\<close>

theorem anti_cheating_first_two_groups_witness:
  "students zigzag_store \<noteq> [] \<and> rooms zigzag_store \<noteq> [] \<and>
   3 \<le> card (subject_code ` set (students zigzag_store)) \<and>
   primary_keys_ok zigzag_store \<and> shuffled_groups rev (\<lambda>xs. xs) zigzag_store \<and>
   [course_a_of zigzag_store, course_b_of zigzag_store] = [''MATH'', ''PHYS''] \<and>
   ''R4'' \<notin> alloc_roll_no ` set (seating_allocations
      (fst (allocate_anti_cheating rev (\<lambda>xs. xs) zigzag_store)))"
proof -
  have h1: "students zigzag_store \<noteq> []" by (simp add: zigzag_store_def)
  have h2: "rooms zigzag_store \<noteq> []" by (simp add: zigzag_store_def)
  have h3: "3 \<le> card (subject_code ` set (students zigzag_store))" by code_simp
  have h4: "primary_keys_ok zigzag_store" by code_simp
  have h5: "shuffled_groups rev (\<lambda>xs. xs) zigzag_store" by (rule shuffled_groups_rev_id)
  have k: "take 2 (rev (remdups (rev (map subject_code (get_all_students zigzag_store))))) =
      [''MATH'', ''PHYS'']"
    by code_simp
  have r4: "example_student ''R4'' ''CHEM'' \<in> set (students zigzag_store)"
    by (simp add: zigzag_store_def)
  from anti_cheating_first_two_groups[where sa = rev and sb = "\<lambda>xs. xs", OF h1 h2 h3 h4 h5]
  obtain d' n where res: "allocate_anti_cheating rev (\<lambda>xs. xs) zigzag_store =
        (d', True, ''Successfully allocated '' @ str_nat n @
                   '' students in Anti-Cheating Zig-Zag mode.'')"
    and sel: "[course_a_of zigzag_store, course_b_of zigzag_store] = [''MATH'', ''PHYS'']"
    and none: "\<forall>s\<in>set (students zigzag_store).
            subject_code s \<noteq> course_a_of zigzag_store \<and>
            subject_code s \<noteq> course_b_of zigzag_store \<longrightarrow>
            roll_no s \<notin> alloc_roll_no ` set (seating_allocations d')"
    unfolding k by (elim exE conjE)
  from sel have ab: "course_a_of zigzag_store = ''MATH''" "course_b_of zigzag_store = ''PHYS''"
    by simp_all
  from none r4 have "''R4'' \<notin> alloc_roll_no ` set (seating_allocations d')"
    unfolding ab by (auto simp: example_student_def)
  moreover have "d' = fst (allocate_anti_cheating rev (\<lambda>xs. xs) zigzag_store)"
    using res by simp
  ultimately show ?thesis using h1 h2 h3 h4 h5 sel by blast
qed

subsection \<open>Adjacent seats in the zig-zag strategy\<close>

lemma zz_seat_mono:
  assumes "ca \<noteq> cb"
  shows "a_index s \<le> a_index (zz_seat ca cb A B rm r c s) \<and>
         b_index s \<le> b_index (zz_seat ca cb A B rm r c s) \<and>
         (\<exists>ext. seating_allocations (db (zz_seat ca cb A B rm r c s)) =
                seating_allocations (db s) @ ext)"
  unfolding zz_seat_cases[OF assms]
  by (simp add: zz_place_def insert_allocation_def)

lemma zz_scan_mono:
  assumes "ca \<noteq> cb"
  shows "a_index s \<le> a_index (zz_scan ca cb A B ps s) \<and>
         b_index s \<le> b_index (zz_scan ca cb A B ps s) \<and>
         (\<exists>ext. seating_allocations (db (zz_scan ca cb A B ps s)) =
                seating_allocations (db s) @ ext)"
proof (induction ps rule: rev_induct)
  case Nil
  then show ?case by (simp add: zz_scan_def)
next
  case (snoc p ps)
  obtain rm r c where p: "p = (rm, r, c)" by (cases p) auto
  let ?t = "zz_scan ca cb A B ps s"
  from snoc obtain e1 where e1: "seating_allocations (db ?t) = seating_allocations (db s) @ e1"
    and a: "a_index s \<le> a_index ?t" and b: "b_index s \<le> b_index ?t" by blast
  from zz_seat_mono[OF assms, of ?t A B rm r c]
  obtain e2 where e2: "seating_allocations (db (zz_seat ca cb A B rm r c ?t)) =
      seating_allocations (db ?t) @ e2"
    and a2: "a_index ?t \<le> a_index (zz_seat ca cb A B rm r c ?t)"
    and b2: "b_index ?t \<le> b_index (zz_seat ca cb A B rm r c ?t)" by blast
  have "seating_allocations (db (zz_seat ca cb A B rm r c ?t)) =
      seating_allocations (db s) @ (e1 @ e2)"
    unfolding e2 e1 by simp
  then show ?case
    unfolding p zz_scan_snoc using a b a2 b2 by (intro conjI exI[of _ "e1 @ e2"]) simp_all
qed

lemma zz_before_Suc:
  assumes "k < length (zz_positions (get_all_rooms d))"
    and "zz_positions (get_all_rooms d) ! k = (rm, r, c)"
  shows "zz_before sa sb d (Suc k) =
         zz_seat (course_a_of d) (course_b_of d) (group_a_of sa d) (group_b_of sb d) rm r c
           (zz_before sa sb d k)"
  unfolding zz_before_def take_Suc_conv_app_nth[OF assms(1)] assms(2) zz_scan_snoc ..

lemma zz_final_from:
  "zz_final sa sb d =
   zz_scan (course_a_of d) (course_b_of d) (group_a_of sa d) (group_b_of sb d)
     (drop k (zz_positions (get_all_rooms d))) (zz_before sa sb d k)"
  unfolding zz_final_def zz_before_def zz_scan_append[symmetric] by simp

lemma zz_before_from:
  assumes "i \<le> j"
  shows "zz_before sa sb d j =
   zz_scan (course_a_of d) (course_b_of d) (group_a_of sa d) (group_b_of sb d)
     (drop i (take j (zz_positions (get_all_rooms d)))) (zz_before sa sb d i)"
proof -
  let ?ps = "zz_positions (get_all_rooms d)"
  have "take i ?ps = take i (take j ?ps)"
    using assms by (simp add: min_def)
  then have "take i ?ps @ drop i (take j ?ps) = take j ?ps"
    by (metis append_take_drop_id)
  then show ?thesis
    unfolding zz_before_def zz_scan_append[symmetric] by (rule arg_cong2[OF _ refl, symmetric])
qed

lemma zz_before_mono:
  assumes "2 \<le> card (subject_code ` set (students d))" and "i \<le> j"
  shows "a_index (zz_before sa sb d i) \<le> a_index (zz_before sa sb d j)"
    and "b_index (zz_before sa sb d i) \<le> b_index (zz_before sa sb d j)"
  unfolding zz_before_from[OF assms(2), of sa sb d]
  using zz_scan_mono[OF selected_courses(1)[OF assms(1)]] by blast+

lemma subject_of_roll_student:
  assumes pk: "primary_keys_ok d" and s: "s \<in> set (students d)"
  shows "subject_of_roll d (roll_no s) = Some (subject_code s)"
proof (cases "find (\<lambda>t. roll_no t = roll_no s) (students d)")
  case None
  with s show ?thesis by (auto simp: find_None_iff)
next
  case (Some t)
  then have "t \<in> set (students d)" "roll_no t = roll_no s"
    by (auto simp: find_Some_iff)
  with roll_no_inj[OF pk _ s] have "t = s" by simp
  with Some show ?thesis by (simp add: subject_of_roll_def)
qed

lemma zz_record_at:
  assumes ne: "students d \<noteq> []" "rooms d \<noteq> []"
    and c: "2 \<le> card (subject_code ` set (students d))"
    and sh: "shuffled_groups sa sb d"
    and k: "k < length (seating_allocations (fst (allocate_anti_cheating sa sb d)))"
    and both: "a_index (zz_before sa sb d k) < length (group_a_of sa d)"
              "b_index (zz_before sa sb d k) < length (group_b_of sb d)"
  shows "\<exists>rm r cc st.
           zz_positions (get_all_rooms d) ! k = (rm, r, cc) \<and>
           st = (if designated_a r cc then group_a_of sa d ! a_index (zz_before sa sb d k)
                 else group_b_of sb d ! b_index (zz_before sa sb d k)) \<and>
           seating_allocations (fst (allocate_anti_cheating sa sb d)) ! k =
             \<lparr>alloc_roll_no = roll_no st, alloc_room_no = room_no rm, row_num = r + 1,
              col_num = cc + 1, seat_number = seat_name (room_no rm) (r + 1) (cc + 1),
              allocation_method = ''anti-cheating''\<rparr>"
proof -
  let ?ps = "zz_positions (get_all_rooms d)"
  let ?A = "group_a_of sa d" and ?B = "group_b_of sb d"
  let ?ca = "course_a_of d" and ?cb = "course_b_of d"
  let ?t = "zz_before sa sb d k"
  note neq = selected_courses(1)[OF c]
  have recs: "seating_allocations (fst (allocate_anti_cheating sa sb d)) =
              seating_allocations (db (zz_final sa sb d))"
    by (rule anti_cheating_records[OF ne c])
  have "length (seating_allocations (db (zz_final sa sb d))) =
        min (length ?ps) (length ?A + length ?B)"
    by (rule zz_inv_length[OF zz_final_inv[OF c]])
  with k recs have kp: "k < length ?ps" by simp
  obtain rm r cc where p: "?ps ! k = (rm, r, cc)" by (cases "?ps ! k") auto
  note invk = zz_before_inv[OF c, of sa sb k]
  from invk have al: "allocated ?t = a_index ?t + b_index ?t"
    and mn: "allocated ?t = min (length (take k ?ps)) (length ?A + length ?B)"
    by (simp_all add: zz_inv_def)
  from al mn both kp have "min (length (take k ?ps)) (length ?A + length ?B) = k"
    by (simp add: min_def split: if_splits)
  then have lk: "length (seating_allocations (db ?t)) = k"
    using zz_inv_length[OF invk] by simp
  let ?st = "if designated_a r cc then ?A ! a_index ?t else ?B ! b_index ?t"
  let ?x = "\<lparr>alloc_roll_no = roll_no ?st, alloc_room_no = room_no rm, row_num = r + 1,
              col_num = cc + 1, seat_number = seat_name (room_no rm) (r + 1) (cc + 1),
              allocation_method = ''anti-cheating''\<rparr>"
  have step: "seating_allocations (db (zz_before sa sb d (Suc k))) =
              seating_allocations (db ?t) @ [?x]"
    unfolding zz_before_Suc[OF kp p] zz_seat_cases[OF neq]
    using both by (simp add: zz_place_def insert_allocation_def)
  from zz_scan_mono[OF neq, of "zz_before sa sb d (Suc k)" ?A ?B "drop (Suc k) ?ps"]
  obtain ext where "seating_allocations (db (zz_final sa sb d)) =
      seating_allocations (db (zz_before sa sb d (Suc k))) @ ext"
    unfolding zz_final_from[of sa sb d "Suc k", symmetric] by blast
  then have "seating_allocations (db (zz_final sa sb d)) ! k = ?x"
    unfolding step using lk by (simp add: nth_append)
  with p show ?thesis unfolding recs by blast
qed

lemma designated_differ:
  fixes r c1 c2 :: int and ca cb :: string
  assumes "ca \<noteq> cb" and "c2 = c1 + 1 \<or> c1 = c2 + 1"
  shows "(if (r - 1) mod 2 = 0 then [ca, cb] else [cb, ca]) ! nat ((c1 - 1) mod 2) \<noteq>
         (if (r - 1) mod 2 = 0 then [ca, cb] else [cb, ca]) ! nat ((c2 - 1) mod 2)"
proof -
  have "designated_a (r - 1) (c1 - 1) \<noteq> designated_a (r - 1) (c2 - 1)"
    using assms(2) unfolding designated_a_def by presburger
  then show ?thesis
    unfolding zigzag_current using assms(1) by auto
qed

lemma zz_record_subject:
  assumes ne: "students d \<noteq> []" "rooms d \<noteq> []"
    and c: "2 \<le> card (subject_code ` set (students d))"
    and pk: "primary_keys_ok d"
    and sh: "shuffled_groups sa sb d"
    and k: "k < length (seating_allocations (fst (allocate_anti_cheating sa sb d)))"
    and both: "a_index (zz_before sa sb d k) < length (group_a_of sa d)"
              "b_index (zz_before sa sb d k) < length (group_b_of sb d)"
  shows "subject_of_roll d
           (alloc_roll_no (seating_allocations (fst (allocate_anti_cheating sa sb d)) ! k)) =
         Some (designated_course d
           (seating_allocations (fst (allocate_anti_cheating sa sb d)) ! k))"
proof -
  let ?A = "group_a_of sa d" and ?B = "group_b_of sb d"
  let ?t = "zz_before sa sb d k"
  let ?x = "seating_allocations (fst (allocate_anti_cheating sa sb d)) ! k"
  from zz_record_at[OF ne c sh k both]
  obtain rm r cc st where "zz_positions (get_all_rooms d) ! k = (rm, r, cc)"
    and st: "st = (if designated_a r cc then ?A ! a_index ?t else ?B ! b_index ?t)"
    and x: "?x = \<lparr>alloc_roll_no = roll_no st, alloc_room_no = room_no rm, row_num = r + 1,
              col_num = cc + 1, seat_number = seat_name (room_no rm) (r + 1) (cc + 1),
              allocation_method = ''anti-cheating''\<rparr>"
    by (elim exE conjE)
  from sh have sA: "set ?A = {s \<in> set (students d). subject_code s = course_a_of d}"
    and sB: "set ?B = {s \<in> set (students d). subject_code s = course_b_of d}"
    unfolding shuffled_groups_def by (simp_all add: shuffled_set)
  have mem: "st \<in> set (students d) \<and>
             subject_code st = (if designated_a r cc then course_a_of d else course_b_of d)"
  proof (cases "designated_a r cc")
    case True
    then have "st \<in> set ?A" using st both(1) by simp
    with True show ?thesis unfolding sA by simp
  next
    case False
    then have "st \<in> set ?B" using st both(2) by simp
    with False show ?thesis unfolding sB by simp
  qed
  have dc: "designated_course d ?x = (if designated_a r cc then course_a_of d else course_b_of d)"
    unfolding x designated_course_def by (simp add: zigzag_current)
  have "subject_of_roll d (alloc_roll_no ?x) = Some (subject_code st)"
    unfolding x using subject_of_roll_student[OF pk] mem by simp
  then show ?thesis unfolding dc using mem by simp
qed

text \<open>
  Claim C2. On an accepted input the loops pass through the state \<open>zz_before sa sb d k\<close>
  when they reach the \<open>k\<close>-th seat, and the \<open>k\<close>-th record is written at the \<open>k\<close>-th seat of the
  scan. If both selected groups have an unplaced member when the scan reaches that seat,
  the student seated there has the subject code that the zig-zag pattern designates: rows
  of even index (0-based) alternate starting with the first selected code, rows of odd
  index starting with the second. Hence two records in the same room and row at adjacent
  columns hold students of different subject codes, if both groups have an unplaced
  member when the scan reaches the later of the two seats.
\<close>

theorem zigzag_adjacent_differ:
  fixes d :: store and sa sb :: shuffle
  defines "recs \<equiv> seating_allocations (fst (allocate_anti_cheating sa sb d))"
  assumes ne: "students d \<noteq> []" "rooms d \<noteq> []"
    and c: "2 \<le> card (subject_code ` set (students d))"
    and pk: "primary_keys_ok d"
    and sh: "shuffled_groups sa sb d"
  shows "(\<forall>k. zz_rooms (course_a_of d) (course_b_of d) (group_a_of sa d) (group_b_of sb d)
              (get_all_rooms d) (zz_start (clear_allocations d)) =
            zz_scan (course_a_of d) (course_b_of d) (group_a_of sa d) (group_b_of sb d)
              (drop k (zz_positions (get_all_rooms d))) (zz_before sa sb d k)) \<and>
         (\<forall>k<length recs. alloc_seat (recs ! k) = pos_seat (zz_positions (get_all_rooms d) ! k)) \<and>
         (\<forall>k<length recs.
            a_index (zz_before sa sb d k) < length (group_a_of sa d) \<and>
            b_index (zz_before sa sb d k) < length (group_b_of sb d) \<longrightarrow>
            subject_of_roll d (alloc_roll_no (recs ! k)) =
              Some (designated_course d (recs ! k))) \<and>
         (\<forall>i j. i < length recs \<and> j < length recs \<and>
            alloc_room_no (recs ! i) = alloc_room_no (recs ! j) \<and>
            row_num (recs ! i) = row_num (recs ! j) \<and>
            (col_num (recs ! j) = col_num (recs ! i) + 1 \<or>
             col_num (recs ! i) = col_num (recs ! j) + 1) \<and>
            a_index (zz_before sa sb d (max i j)) < length (group_a_of sa d) \<and>
            b_index (zz_before sa sb d (max i j)) < length (group_b_of sb d) \<longrightarrow>
            (\<exists>ci cj. subject_of_roll d (alloc_roll_no (recs ! i)) = Some ci \<and>
                     subject_of_roll d (alloc_roll_no (recs ! j)) = Some cj \<and> ci \<noteq> cj))"
proof -
  let ?ps = "zz_positions (get_all_rooms d)"
  let ?A = "group_a_of sa d" and ?B = "group_b_of sb d"
  have seats: "\<forall>k<length recs. alloc_seat (recs ! k) = pos_seat (?ps ! k)"
  proof (intro allI impI)
    fix k
    assume k: "k < length recs"
    let ?s = "zz_final sa sb d"
    have r: "recs = seating_allocations (db ?s)"
      unfolding recs_def by (rule anti_cheating_records[OF ne c])
    from zz_final_inv[OF c, of sa sb]
    have st: "map alloc_seat recs = map pos_seat (take (allocated ?s) ?ps)"
      unfolding r by (simp add: zz_inv_def)
    from arg_cong[OF st, of length] k
    have kk: "k < allocated ?s" "k < length ?ps" by simp_all
    have "alloc_seat (recs ! k) = map alloc_seat recs ! k" using k by simp
    also have "\<dots> = map pos_seat (take (allocated ?s) ?ps) ! k" unfolding st ..
    also have "\<dots> = pos_seat (?ps ! k)" using kk by simp
    finally show "alloc_seat (recs ! k) = pos_seat (?ps ! k)" .
  qed
  have subj: "\<And>k. k < length recs \<Longrightarrow> a_index (zz_before sa sb d k) < length ?A \<Longrightarrow>
      b_index (zz_before sa sb d k) < length ?B \<Longrightarrow>
      subject_of_roll d (alloc_roll_no (recs ! k)) = Some (designated_course d (recs ! k))"
    unfolding recs_def by (rule zz_record_subject[OF ne c pk sh])
  have adj: "\<forall>i j. i < length recs \<and> j < length recs \<and>
            alloc_room_no (recs ! i) = alloc_room_no (recs ! j) \<and>
            row_num (recs ! i) = row_num (recs ! j) \<and>
            (col_num (recs ! j) = col_num (recs ! i) + 1 \<or>
             col_num (recs ! i) = col_num (recs ! j) + 1) \<and>
            a_index (zz_before sa sb d (max i j)) < length ?A \<and>
            b_index (zz_before sa sb d (max i j)) < length ?B \<longrightarrow>
            (\<exists>ci cj. subject_of_roll d (alloc_roll_no (recs ! i)) = Some ci \<and>
                     subject_of_roll d (alloc_roll_no (recs ! j)) = Some cj \<and> ci \<noteq> cj)"
  proof (intro allI impI, elim conjE)
    fix i j
    assume i: "i < length recs" and j: "j < length recs"
      and row: "row_num (recs ! i) = row_num (recs ! j)"
      and col: "col_num (recs ! j) = col_num (recs ! i) + 1 \<or>
                col_num (recs ! i) = col_num (recs ! j) + 1"
      and a: "a_index (zz_before sa sb d (max i j)) < length ?A"
      and b: "b_index (zz_before sa sb d (max i j)) < length ?B"
    have ai: "a_index (zz_before sa sb d i) < length ?A"
      using zz_before_mono(1)[OF c, of i "max i j" sa sb] a by simp
    have bi: "b_index (zz_before sa sb d i) < length ?B"
      using zz_before_mono(2)[OF c, of i "max i j" sa sb] b by simp
    have aj: "a_index (zz_before sa sb d j) < length ?A"
      using zz_before_mono(1)[OF c, of j "max i j" sa sb] a by simp
    have bj: "b_index (zz_before sa sb d j) < length ?B"
      using zz_before_mono(2)[OF c, of j "max i j" sa sb] b by simp
    have "designated_course d (recs ! i) \<noteq> designated_course d (recs ! j)"
      unfolding designated_course_def row
      by (rule designated_differ[OF selected_courses(1)[OF c] col])
    with subj[OF i ai bi] subj[OF j aj bj]
    show "\<exists>ci cj. subject_of_roll d (alloc_roll_no (recs ! i)) = Some ci \<and>
                  subject_of_roll d (alloc_roll_no (recs ! j)) = Some cj \<and> ci \<noteq> cj"
      by blast
  qed
  have subj': "\<forall>k<length recs.
            a_index (zz_before sa sb d k) < length ?A \<and>
            b_index (zz_before sa sb d k) < length ?B \<longrightarrow>
            subject_of_roll d (alloc_roll_no (recs ! k)) =
              Some (designated_course d (recs ! k))"
    using subj by simp
  have run: "\<forall>k. zz_rooms (course_a_of d) (course_b_of d) ?A ?B
              (get_all_rooms d) (zz_start (clear_allocations d)) =
            zz_scan (course_a_of d) (course_b_of d) ?A ?B (drop k ?ps) (zz_before sa sb d k)"
    unfolding zz_rooms_scan zz_final_from[symmetric] zz_final_def by simp
  show ?thesis by (intro conjI run seats subj' adj)
qed

text \<open>Claim C2 at \<open>zigzag_store\<close>: the first two records sit at columns 1 and 2 of row 1 of
  room 201, both groups have unplaced members when the second is written, and the two
  students carry the codes MATH and PHYS.\<close>

theorem zigzag_adjacent_differ_witness:
  "students zigzag_store \<noteq> [] \<and> rooms zigzag_store \<noteq> [] \<and>
   2 \<le> card (subject_code ` set (students zigzag_store)) \<and>
   primary_keys_ok zigzag_store \<and> shuffled_groups rev (\<lambda>xs. xs) zigzag_store \<and>
   map alloc_seat (take 2 (seating_allocations
      (fst (allocate_anti_cheating rev (\<lambda>xs. xs) zigzag_store)))) =
     [(''201'', 1, 1), (''201'', 1, 2)] \<and>
   a_index (zz_before rev (\<lambda>xs. xs) zigzag_store 1) < length (group_a_of rev zigzag_store) \<and>
   b_index (zz_before rev (\<lambda>xs. xs) zigzag_store 1) <
     length (group_b_of (\<lambda>xs. xs) zigzag_store) \<and>
   subject_of_roll zigzag_store (alloc_roll_no (seating_allocations
      (fst (allocate_anti_cheating rev (\<lambda>xs. xs) zigzag_store)) ! 0)) \<noteq>
   subject_of_roll zigzag_store (alloc_roll_no (seating_allocations
      (fst (allocate_anti_cheating rev (\<lambda>xs. xs) zigzag_store)) ! 1))"
proof -
  let ?recs = "seating_allocations (fst (allocate_anti_cheating rev (\<lambda>xs. xs) zigzag_store))"
  have h1: "students zigzag_store \<noteq> []" by (simp add: zigzag_store_def)
  have h2: "rooms zigzag_store \<noteq> []" by (simp add: zigzag_store_def)
  have h3: "2 \<le> card (subject_code ` set (students zigzag_store))" by code_simp
  have h4: "primary_keys_ok zigzag_store" by code_simp
  have h5: "shuffled_groups rev (\<lambda>xs. xs) zigzag_store" by (rule shuffled_groups_rev_id)
  have v: "map alloc_seat (take 2 ?recs) = [(''201'', 1, 1), (''201'', 1, 2)]" by code_simp
  have l: "0 < length ?recs" "1 < length ?recs" by code_simp+
  have rm: "alloc_room_no (?recs ! 0) = alloc_room_no (?recs ! 1)" by code_simp
  have rw: "row_num (?recs ! 0) = row_num (?recs ! 1)" by code_simp
  have cl: "col_num (?recs ! 1) = col_num (?recs ! 0) + 1 \<or>
            col_num (?recs ! 0) = col_num (?recs ! 1) + 1" by code_simp
  have a: "a_index (zz_before rev (\<lambda>xs. xs) zigzag_store 1) < length (group_a_of rev zigzag_store)"
    by code_simp
  have b: "b_index (zz_before rev (\<lambda>xs. xs) zigzag_store 1) <
           length (group_b_of (\<lambda>xs. xs) zigzag_store)"
    by code_simp
  have m: "max 0 1 = (1::nat)" by simp
  from zigzag_adjacent_differ[where sa = rev and sb = "\<lambda>xs. xs", OF h1 h2 h3 h4 h5]
  have "\<forall>i j. i < length ?recs \<and> j < length ?recs \<and>
            alloc_room_no (?recs ! i) = alloc_room_no (?recs ! j) \<and>
            row_num (?recs ! i) = row_num (?recs ! j) \<and>
            (col_num (?recs ! j) = col_num (?recs ! i) + 1 \<or>
             col_num (?recs ! i) = col_num (?recs ! j) + 1) \<and>
            a_index (zz_before rev (\<lambda>xs. xs) zigzag_store (max i j)) <
              length (group_a_of rev zigzag_store) \<and>
            b_index (zz_before rev (\<lambda>xs. xs) zigzag_store (max i j)) <
              length (group_b_of (\<lambda>xs. xs) zigzag_store) \<longrightarrow>
            (\<exists>ci cj. subject_of_roll zigzag_store (alloc_roll_no (?recs ! i)) = Some ci \<and>
                     subject_of_roll zigzag_store (alloc_roll_no (?recs ! j)) = Some cj \<and>
                     ci \<noteq> cj)"
    by (elim conjE)
  from this[rule_format, of 0 1] l rm rw cl a b m
  have "\<exists>ci cj. subject_of_roll zigzag_store (alloc_roll_no (?recs ! 0)) = Some ci \<and>
                subject_of_roll zigzag_store (alloc_roll_no (?recs ! 1)) = Some cj \<and> ci \<noteq> cj"
    by simp
  then have "subject_of_roll zigzag_store (alloc_roll_no (?recs ! 0)) \<noteq>
             subject_of_roll zigzag_store (alloc_roll_no (?recs ! 1))"
    by auto
  with h1 h2 h3 h4 h5 v a b show ?thesis by (intro conjI)
qed

end
